theory Spec2Isabelle
  imports Complex_Main "HOL-Library.Word"
begin

unbundle bit_operations_syntax

chapter \<open>The embedding\<close>

section \<open>Machine integers, pixel formats, error codes\<close>

type_synonym u8 = "8 word"
type_synonym u32 = "32 word"
type_synonym u64 = "64 word"

text \<open>
  The pixel-format tags are the fourcc constants of linux/videodev2.h. The code only ever
  compares them for equality.
\<close>

definition V4L2_PIX_FMT_NV12 :: u32 where "V4L2_PIX_FMT_NV12 = 0x3231564E"
definition V4L2_PIX_FMT_NV16 :: u32 where "V4L2_PIX_FMT_NV16 = 0x3631564E"
definition V4L2_PIX_FMT_YUYV :: u32 where "V4L2_PIX_FMT_YUYV = 0x56595559"
definition V4L2_PIX_FMT_RGB24 :: u32 where "V4L2_PIX_FMT_RGB24 = 0x33424752"
definition V4L2_PIX_FMT_BGR24 :: u32 where "V4L2_PIX_FMT_BGR24 = 0x33524742"
definition V4L2_PIX_FMT_YUV420 :: u32 where "V4L2_PIX_FMT_YUV420 = 0x32315559"
definition V4L2_PIX_FMT_MJPEG :: u32 where "V4L2_PIX_FMT_MJPEG = 0x47504A4D"
definition V4L2_PIX_FMT_JPEG :: u32 where "V4L2_PIX_FMT_JPEG = 0x4745504A"
definition V4L2_PIX_FMT_H264 :: u32 where "V4L2_PIX_FMT_H264 = 0x34363248"

lemmas fourcc_defs =
  V4L2_PIX_FMT_NV12_def V4L2_PIX_FMT_NV16_def V4L2_PIX_FMT_YUYV_def
  V4L2_PIX_FMT_RGB24_def V4L2_PIX_FMT_BGR24_def V4L2_PIX_FMT_YUV420_def
  V4L2_PIX_FMT_MJPEG_def V4L2_PIX_FMT_JPEG_def V4L2_PIX_FMT_H264_def

text \<open>\<^verbatim>\<open>us_mpp_error_e\<close> of mpp_encoder.h, in the order of the header.\<close>

datatype us_mpp_error_e =
    US_MPP_OK
  | US_MPP_ERROR_INVALID_PARAM
  | US_MPP_ERROR_MEMORY
  | US_MPP_ERROR_INIT
  | US_MPP_ERROR_ENCODE
  | US_MPP_ERROR_DECODE
  | US_MPP_ERROR_FORMAT_UNSUPPORTED
  | US_MPP_ERROR_DEVICE_NOT_FOUND
  | US_MPP_ERROR_DEVICE_BUSY
  | US_MPP_ERROR_HARDWARE_FAILURE
  | US_MPP_ERROR_NOT_INITIALIZED
  | US_MPP_ERROR_BUFFER_OVERFLOW
  | US_MPP_ERROR_TIMEOUT
  | US_MPP_ERROR_INFO_CHANGE
  | US_MPP_ERROR_EOS

text \<open>
  The return code of a call into the vendor codec library. The code tells three cases
  apart: \<^verbatim>\<open>MPP_OK\<close>, \<^verbatim>\<open>MPP_ERR_TIMEOUT\<close>, and everything else.
\<close>

datatype MPP_RET = MPP_OK | MPP_ERR_TIMEOUT | MPP_NOK

section \<open>The frame container\<close>

text \<open>
  \<^verbatim>\<open>us_frame_s\<close>: the fields the modelled code reads or writes. A null \<^verbatim>\<open>data\<close>
  pointer is \<open>None\<close>; otherwise the bytes of the allocation.
\<close>

record us_frame_s =
  width :: u32
  height :: u32
  format :: u32
  stride :: u32
  used :: nat
  allocated :: nat
  data :: "u8 list option"

definition frame_bytes :: "us_frame_s \<Rightarrow> u8 list" where
  "frame_bytes frame = (case data frame of None \<Rightarrow> [] | Some bs \<Rightarrow> bs)"

text \<open>
  Modelled from the spec: \<^verbatim>\<open>us_frame_realloc_data\<close> lives in libs/frame.c, which is not
  among the sources. The spec's ensure-capacity: it never shrinks, afterwards
  \<open>allocated \<ge> n\<close>, and the bytes already there are kept. The bytes gained are
  indeterminate in C; the model fills them with zero.
\<close>

definition us_frame_realloc_data :: "us_frame_s \<Rightarrow> nat \<Rightarrow> us_frame_s" where
  "us_frame_realloc_data frame n =
     (if allocated frame < n
      then frame\<lparr>data := Some (take n (frame_bytes frame @ replicate n 0)), allocated := n\<rparr>
      else frame)"

text \<open>
  \<^verbatim>\<open>memcpy(dst, src, n)\<close> on the bytes of two allocations. Copying more than either
  side holds is undefined in C; the model answers \<open>None\<close> there.
\<close>

definition memcpy :: "u8 list \<Rightarrow> u8 list \<Rightarrow> nat \<Rightarrow> u8 list option" where
  "memcpy dst src n =
     (if n \<le> length dst \<and> n \<le> length src then Some (take n src @ drop n dst) else None)"

section \<open>The codec processor\<close>

text \<open>
  \<^verbatim>\<open>us_mpp_stats_s\<close> and \<^verbatim>\<open>us_mpp_processor_s\<close> of mpp_encoder.h. The three
  double-precision timing fields (total, average, fps) are left out; they are written by
  \<^verbatim>\<open>_us_mpp_update_stats\<close> only and read by nothing modelled here. Opaque vendor handles
  are kept as what the code asks of them: whether they are null, and the bytes of a buffer.
\<close>

record us_mpp_stats_s =
  frames_processed :: u64
  processing_errors :: u64
  last_stats_update :: u64
  frames_decoded :: u64
  decode_errors :: u64
  frames_encoded :: u64
  encode_errors :: u64
  keyframes_generated :: u32

record us_mpp_processor_s =
  frm_grp :: bool
  frm_buf :: "u8 list"
  pkt_grp :: bool
  frame_holder :: bool
  proc_width :: u32
  proc_height :: u32
  hor_stride :: u32
  ver_stride :: u32
  initialized :: bool
  processing :: bool
  should_stop :: bool
  consecutive_errors :: u32
  stats :: us_mpp_stats_s
  frame_number :: u64

text \<open>
  \<^verbatim>\<open>_us_mpp_update_stats\<close> (mpp_encoder.c). The clock read inside it is the argument
  \<open>now\<close>. Identifiers cannot start with an underscore here, so the leading one is dropped.
\<close>

definition us_mpp_update_stats ::
  "u64 \<Rightarrow> us_mpp_processor_s \<Rightarrow> u64 \<Rightarrow> bool \<Rightarrow> bool \<Rightarrow> us_mpp_processor_s" where
  "us_mpp_update_stats now proc process_time_us success is_encode =
     (let s0 = stats proc;
          s1 = s0\<lparr>frames_processed := frames_processed s0 + 1\<rparr>;
          s2 = (if success
                then (if is_encode
                      then s1\<lparr>frames_encoded := frames_encoded s1 + 1\<rparr>
                      else s1\<lparr>frames_decoded := frames_decoded s1 + 1\<rparr>)
                else (let e = s1\<lparr>processing_errors := processing_errors s1 + 1\<rparr>
                      in if is_encode
                         then e\<lparr>encode_errors := encode_errors e + 1\<rparr>
                         else e\<lparr>decode_errors := decode_errors e + 1\<rparr>));
          ce = (if success then 0 else consecutive_errors proc + 1);
          s3 = (if 1000000 \<le> now - last_stats_update s2
                then s2\<lparr>last_stats_update := now\<rparr> else s2)
      in proc\<lparr>stats := s3, consecutive_errors := ce\<rparr>)"

definition us_mpp_is_format_supported_for_decode :: "u32 \<Rightarrow> bool" where
  "us_mpp_is_format_supported_for_decode fmt =
     (fmt = V4L2_PIX_FMT_MJPEG \<or> fmt = V4L2_PIX_FMT_JPEG)"

definition us_mpp_is_format_supported_for_encode :: "u32 \<Rightarrow> bool" where
  "us_mpp_is_format_supported_for_encode fmt = (fmt = V4L2_PIX_FMT_NV12)"

section \<open>The H.264 encoder (mpp_h264_encoder.c)\<close>

definition US_MPP_H264_MAX_RETRY :: nat where
  "US_MPP_H264_MAX_RETRY = 30"

text \<open>
  An output packet as the code reads it: its data pointer, its length, and its meta
  (\<open>None\<close>: no meta; \<open>Some v\<close>: the value read under \<^verbatim>\<open>KEY_OUTPUT_INTRA\<close>, 0 when the
  key is absent).
\<close>

record mpp_packet =
  pkt_data :: "u8 list option"
  pkt_length :: nat
  pkt_meta :: "u32 option"

text \<open>
  What the vendor library and the clock answer during one encode call: the three clock
  reads, the return of \<^verbatim>\<open>encode_put_frame\<close>, and for the k-th poll (from 0) the return
  of \<^verbatim>\<open>encode_get_packet\<close> with the packet it hands out.
\<close>

record enc_env =
  enc_time_start :: u64
  enc_time_end :: u64
  enc_time_now :: u64
  put_frame_ret :: MPP_RET
  get_packet :: "nat \<Rightarrow> MPP_RET \<times> mpp_packet option"

text \<open>The calls of one encode call that leave the process, in order.\<close>

datatype enc_event =
    EvCopyInput nat
  | EvPutFrame bool
  | EvGetPacket nat
  | EvUsleep nat

type_synonym enc_state = "us_mpp_error_e \<times> us_mpp_processor_s \<times> us_frame_s \<times> enc_event list"

definition us_mpp_h264_extract_output_packet ::
  "us_mpp_processor_s \<Rightarrow> mpp_packet \<Rightarrow> us_frame_s \<Rightarrow>
   (us_mpp_error_e \<times> us_mpp_processor_s \<times> us_frame_s) option" where
  "us_mpp_h264_extract_output_packet encoder packet h264_frame =
     (case pkt_data packet of
        None \<Rightarrow> Some (US_MPP_ERROR_ENCODE, encoder, h264_frame)
      | Some bytes \<Rightarrow>
          if pkt_length packet = 0 then Some (US_MPP_ERROR_ENCODE, encoder, h264_frame)
          else
            (let f1 = h264_frame\<lparr>width := proc_width encoder, height := proc_height encoder,
                                  format := V4L2_PIX_FMT_H264, stride := 0,
                                  used := pkt_length packet\<rparr>;
                 f2 = us_frame_realloc_data f1 (pkt_length packet)
             in case data f2 of
                  None \<Rightarrow> Some (US_MPP_ERROR_MEMORY, encoder, f2)
                | Some dst \<Rightarrow>
                    (case memcpy dst bytes (pkt_length packet) of
                       None \<Rightarrow> None
                     | Some dst' \<Rightarrow>
                         (let s = stats encoder;
                              encoder' =
                                (case pkt_meta packet of
                                   None \<Rightarrow> encoder
                                 | Some is_intra \<Rightarrow>
                                     if is_intra = 0 then encoder
                                     else encoder\<lparr>stats :=
                                       s\<lparr>keyframes_generated := keyframes_generated s + 1\<rparr>\<rparr>)
                          in Some (US_MPP_OK, encoder', f2\<lparr>data := Some dst'\<rparr>)))))"

text \<open>
  The output-fetch loop, \<^verbatim>\<open>do { ... } while (1)\<close>, entered with \<open>result = US_MPP_OK\<close>.
  \<open>retry_count\<close> is the loop's counter; it also numbers the poll.
\<close>

function get_packet_loop ::
  "enc_env \<Rightarrow> nat \<Rightarrow> us_mpp_processor_s \<Rightarrow> us_frame_s \<Rightarrow> enc_event list \<Rightarrow> enc_state option"
  where
  "get_packet_loop env retry_count encoder h264_frame tr =
     (if fst (get_packet env retry_count) = MPP_ERR_TIMEOUT
      then Some (US_MPP_OK, encoder, h264_frame, tr @ [EvGetPacket retry_count])
      else if fst (get_packet env retry_count) = MPP_NOK
      then Some (US_MPP_ERROR_ENCODE, encoder, h264_frame, tr @ [EvGetPacket retry_count])
      else
        (case snd (get_packet env retry_count) of
           Some packet \<Rightarrow>
             (case us_mpp_h264_extract_output_packet encoder packet h264_frame of
                None \<Rightarrow> None
              | Some (extract_err, encoder', h264_frame') \<Rightarrow>
                  Some (extract_err, encoder', h264_frame', tr @ [EvGetPacket retry_count]))
         | None \<Rightarrow>
             if US_MPP_H264_MAX_RETRY \<le> retry_count + 1
             then Some (US_MPP_ERROR_TIMEOUT, encoder, h264_frame,
                        tr @ [EvGetPacket retry_count])
             else get_packet_loop env (retry_count + 1) encoder h264_frame
                    (tr @ [EvGetPacket retry_count, EvUsleep 1000])))"
  by pat_completeness auto
termination
  by (relation "measure (\<lambda>(env, retry_count, encoder, h264_frame, tr).
        US_MPP_H264_MAX_RETRY - retry_count)") auto

declare get_packet_loop.simps [simp del]

text \<open>The \<^verbatim>\<open>cleanup:\<close> label of the encode call.\<close>

definition encode_cleanup ::
  "enc_env \<Rightarrow> us_mpp_error_e \<Rightarrow> us_mpp_processor_s \<Rightarrow> us_mpp_processor_s" where
  "encode_cleanup env result encoder =
     (let e1 = encoder\<lparr>processing := False, frame_number := frame_number encoder + 1\<rparr>;
          process_time = enc_time_end env - enc_time_start env
      in us_mpp_update_stats (enc_time_now env) e1 process_time (result = US_MPP_OK) True)"

text \<open>
  \<^verbatim>\<open>us_mpp_h264_encoder_encode\<close>. A null pointer argument is \<open>None\<close>. The result is the
  returned code, the encoder and the output frame after the call, and the outside calls
  made; \<open>None\<close> is a copy past the end of a buffer.
  \<^verbatim>\<open>_us_mpp_h264_setup_input_frame\<close> only fills the vendor's frame holder and returns
  \<^verbatim>\<open>US_MPP_OK\<close> for non-null arguments, which they are at its only call.
\<close>

definition us_mpp_h264_encoder_encode ::
  "enc_env \<Rightarrow> us_mpp_processor_s option \<Rightarrow> us_frame_s option \<Rightarrow> us_frame_s option \<Rightarrow> bool \<Rightarrow>
   (us_mpp_error_e \<times> us_mpp_processor_s option \<times> us_frame_s option \<times> enc_event list) option"
  where
  "us_mpp_h264_encoder_encode env encoder nv12_frame h264_frame force_key =
     (case (encoder, nv12_frame, h264_frame) of
        (Some enc, Some nv12, Some h264) \<Rightarrow>
          if \<not> initialized enc
          then Some (US_MPP_ERROR_NOT_INITIALIZED, encoder, h264_frame, [])
          else if \<not> us_mpp_is_format_supported_for_encode (format nv12)
          then Some (US_MPP_ERROR_FORMAT_UNSUPPORTED, encoder, h264_frame, [])
          else if used nv12 = 0 \<or> data nv12 = None
          then Some (US_MPP_ERROR_INVALID_PARAM, encoder, h264_frame, [])
          else if should_stop enc
          then Some (US_MPP_ERROR_NOT_INITIALIZED, encoder, h264_frame, [])
          else
            (case memcpy (frm_buf enc) (frame_bytes nv12) (used nv12) of
               None \<Rightarrow> None
             | Some buf \<Rightarrow>
                 (let e1 = enc\<lparr>processing := True, frm_buf := buf\<rparr>;
                      tr = [EvCopyInput (used nv12), EvPutFrame force_key]
                  in if put_frame_ret env \<noteq> MPP_OK
                     then Some (US_MPP_ERROR_ENCODE,
                                Some (encode_cleanup env US_MPP_ERROR_ENCODE e1), h264_frame, tr)
                     else
                       (case get_packet_loop env 0 e1 h264 tr of
                          None \<Rightarrow> None
                        | Some (result, e2, h264', tr') \<Rightarrow>
                            Some (result, Some (encode_cleanup env result e2),
                                  Some h264', tr'))))
      | _ \<Rightarrow> Some (US_MPP_ERROR_INVALID_PARAM, encoder, h264_frame, []))"

section \<open>The MJPEG decoder (mpp_mjpeg_decoder.c)\<close>

text \<open>
  A vendor buffer as the code reads it (\<^verbatim>\<open>mpp_buffer_get_ptr\<close>, \<^verbatim>\<open>mpp_buffer_get_size\<close>)
  and a vendor frame through its getters.
\<close>

record mpp_buffer =
  mpp_buffer_get_ptr :: "u8 list option"
  mpp_buffer_get_size :: nat

record mpp_frame =
  mpp_frame_get_info_change :: bool
  mpp_frame_get_errinfo :: u32
  mpp_frame_get_discard :: u32
  mpp_frame_get_eos :: bool
  mpp_frame_get_width :: u32
  mpp_frame_get_height :: u32
  mpp_frame_get_hor_stride :: u32
  mpp_frame_get_ver_stride :: u32
  mpp_frame_get_buffer :: "mpp_buffer option"

text \<open>What the vendor library answers during one decode call, in the order of the calls.\<close>

record dec_env =
  pkt_grp_ret :: MPP_RET
  input_buffer_ret :: MPP_RET
  input_buffer_ptr :: bool
  packet_init_ret :: MPP_RET
  put_packet_ret :: MPP_RET
  get_frame_ret :: MPP_RET
  returned_frame :: "mpp_frame option"
  ext_group_ret :: MPP_RET
  set_ext_group_ret :: MPP_RET
  info_change_ready_ret :: MPP_RET

definition info_change_ready ::
  "dec_env \<Rightarrow> us_mpp_processor_s \<Rightarrow> us_mpp_error_e \<times> us_mpp_processor_s" where
  "info_change_ready env decoder =
     (if info_change_ready_ret env \<noteq> MPP_OK then (US_MPP_ERROR_DECODE, decoder)
      else (US_MPP_OK, decoder))"

text \<open>
  \<^verbatim>\<open>_us_mpp_mjpeg_process_info_change\<close>. The 24 buffers it gets and puts back leave no
  trace in the record.
\<close>

definition us_mpp_mjpeg_process_info_change ::
  "dec_env \<Rightarrow> us_mpp_processor_s \<Rightarrow> mpp_frame \<Rightarrow> us_mpp_error_e \<times> us_mpp_processor_s" where
  "us_mpp_mjpeg_process_info_change env decoder frame =
     (if mpp_frame_get_info_change frame
      then
        (let d1 = decoder\<lparr>proc_width := mpp_frame_get_width frame,
                            proc_height := mpp_frame_get_height frame,
                            hor_stride := mpp_frame_get_hor_stride frame,
                            ver_stride := mpp_frame_get_ver_stride frame\<rparr>
         in if \<not> frm_grp d1
            then (if ext_group_ret env \<noteq> MPP_OK then (US_MPP_ERROR_INIT, d1)
                  else if set_ext_group_ret env \<noteq> MPP_OK
                  then (US_MPP_ERROR_INIT, d1\<lparr>frm_grp := True\<rparr>)
                  else info_change_ready env (d1\<lparr>frm_grp := True\<rparr>))
            else info_change_ready env d1)
      else (US_MPP_OK, decoder))"

text \<open>\<^verbatim>\<open>_us_mpp_mjpeg_copy_frame_data\<close>; the sizes are 32-bit, as in the source.\<close>

definition us_mpp_mjpeg_copy_frame_data ::
  "mpp_frame \<Rightarrow> us_frame_s \<Rightarrow> (us_mpp_error_e \<times> us_frame_s) option" where
  "us_mpp_mjpeg_copy_frame_data frame out_frame =
     (case mpp_frame_get_buffer frame of
        None \<Rightarrow> Some (US_MPP_ERROR_DECODE, out_frame)
      | Some buffer \<Rightarrow>
          (case mpp_buffer_get_ptr buffer of
             None \<Rightarrow> Some (US_MPP_ERROR_DECODE, out_frame)
           | Some src_data \<Rightarrow>
               if mpp_buffer_get_size buffer = 0 then Some (US_MPP_ERROR_DECODE, out_frame)
               else
                 (let y_size = mpp_frame_get_hor_stride frame * mpp_frame_get_ver_stride frame;
                      uv_size = (mpp_frame_get_hor_stride frame * mpp_frame_get_ver_stride frame)
                                  div 2;
                      total_size = y_size + uv_size;
                      f1 = out_frame\<lparr>width := mpp_frame_get_width frame,
                                       height := mpp_frame_get_height frame,
                                       format := V4L2_PIX_FMT_NV12,
                                       stride := mpp_frame_get_hor_stride frame,
                                       used := unat total_size\<rparr>;
                      f2 = us_frame_realloc_data f1 (unat total_size)
                  in case data f2 of
                       None \<Rightarrow> Some (US_MPP_ERROR_MEMORY, f2)
                     | Some dst \<Rightarrow>
                         (case memcpy dst src_data (unat total_size) of
                            None \<Rightarrow> None
                          | Some dst' \<Rightarrow> Some (US_MPP_OK, f2\<lparr>data := Some dst'\<rparr>)))))"

text \<open>
  The first half of the decode call, from the validity checks to \<^verbatim>\<open>decode_put_packet\<close>.
  \<open>Some e\<close> in the first component is a \<^verbatim>\<open>goto cleanup\<close> with \<open>result = e\<close>. Reading the
  two magic bytes past the end of the allocation, or copying more input than it holds,
  is \<open>None\<close>.
\<close>

definition decode_submit ::
  "dec_env \<Rightarrow> us_mpp_processor_s \<Rightarrow> us_frame_s \<Rightarrow>
   (us_mpp_error_e option \<times> us_mpp_processor_s) option" where
  "decode_submit env decoder mjpeg_frame =
     (if used mjpeg_frame < 2 \<or> data mjpeg_frame = None
      then Some (Some US_MPP_ERROR_INVALID_PARAM, decoder)
      else
        (case frame_bytes mjpeg_frame of
           b0 # b1 # rest \<Rightarrow>
             if b0 \<noteq> 0xFF \<or> b1 \<noteq> 0xD8 then Some (Some US_MPP_ERROR_DECODE, decoder)
             else if \<not> pkt_grp decoder \<and> pkt_grp_ret env \<noteq> MPP_OK
             then Some (Some US_MPP_ERROR_MEMORY, decoder)
             else
               (let d1 = decoder\<lparr>pkt_grp := True\<rparr>
                in if input_buffer_ret env \<noteq> MPP_OK then Some (Some US_MPP_ERROR_MEMORY, d1)
                   else if \<not> input_buffer_ptr env then Some (Some US_MPP_ERROR_MEMORY, d1)
                   else if length (frame_bytes mjpeg_frame) < used mjpeg_frame then None
                   else if packet_init_ret env \<noteq> MPP_OK
                   then Some (Some US_MPP_ERROR_MEMORY, d1)
                   else if \<not> frame_holder d1
                   then Some (Some US_MPP_ERROR_NOT_INITIALIZED, d1)
                   else if put_packet_ret env \<noteq> MPP_OK
                   then Some (Some US_MPP_ERROR_DECODE, d1)
                   else Some (None, d1))
         | _ \<Rightarrow> None))"

text \<open>The second half: \<^verbatim>\<open>decode_get_frame\<close> and what is done with the frame.\<close>

definition decode_receive ::
  "dec_env \<Rightarrow> us_mpp_processor_s \<Rightarrow> us_frame_s \<Rightarrow>
   (us_mpp_error_e \<times> us_mpp_processor_s \<times> us_frame_s) option" where
  "decode_receive env decoder nv12_frame =
     (if get_frame_ret env \<noteq> MPP_OK
      then Some ((if get_frame_ret env = MPP_ERR_TIMEOUT then US_MPP_ERROR_TIMEOUT
                  else US_MPP_ERROR_DECODE), decoder, nv12_frame)
      else
        (case returned_frame env of
           None \<Rightarrow> Some (US_MPP_ERROR_DECODE, decoder, nv12_frame)
         | Some rf \<Rightarrow>
             if mpp_frame_get_info_change rf
             then (case us_mpp_mjpeg_process_info_change env decoder rf of
                     (info_err, d1) \<Rightarrow>
                       Some ((if info_err \<noteq> US_MPP_OK then info_err
                              else US_MPP_ERROR_INFO_CHANGE), d1, nv12_frame))
             else if mpp_frame_get_errinfo rf \<noteq> 0 \<or> mpp_frame_get_discard rf \<noteq> 0
             then Some (US_MPP_ERROR_DECODE, decoder, nv12_frame)
             else if mpp_frame_get_eos rf
             then Some (US_MPP_ERROR_EOS, decoder, nv12_frame)
             else
               (case us_mpp_mjpeg_copy_frame_data rf nv12_frame of
                  None \<Rightarrow> None
                | Some (copy_err, nv12') \<Rightarrow> Some (copy_err, decoder, nv12'))))"

text \<open>The \<^verbatim>\<open>cleanup:\<close> label of the decode call: it counts the frame and nothing else.\<close>

definition decode_cleanup :: "us_mpp_processor_s \<Rightarrow> us_mpp_processor_s" where
  "decode_cleanup decoder = decoder\<lparr>frame_number := frame_number decoder + 1\<rparr>"

text \<open>\<^verbatim>\<open>us_mpp_mjpeg_decoder_decode\<close>, with null pointers and overruns as for the encoder.\<close>

definition us_mpp_mjpeg_decoder_decode ::
  "dec_env \<Rightarrow> us_mpp_processor_s option \<Rightarrow> us_frame_s option \<Rightarrow> us_frame_s option \<Rightarrow>
   (us_mpp_error_e \<times> us_mpp_processor_s option \<times> us_frame_s option) option" where
  "us_mpp_mjpeg_decoder_decode env decoder mjpeg_frame nv12_frame =
     (case (decoder, mjpeg_frame, nv12_frame) of
        (Some dec, Some mjpeg, Some nv12) \<Rightarrow>
          if \<not> initialized dec
          then Some (US_MPP_ERROR_NOT_INITIALIZED, decoder, nv12_frame)
          else if \<not> us_mpp_is_format_supported_for_decode (format mjpeg)
          then Some (US_MPP_ERROR_FORMAT_UNSUPPORTED, decoder, nv12_frame)
          else if used mjpeg = 0 \<or> data mjpeg = None
          then Some (US_MPP_ERROR_INVALID_PARAM, decoder, nv12_frame)
          else if should_stop dec
          then Some (US_MPP_ERROR_NOT_INITIALIZED, decoder, nv12_frame)
          else
            (case decode_submit env (dec\<lparr>processing := True\<rparr>) mjpeg of
               None \<Rightarrow> None
             | Some (Some result, d1) \<Rightarrow>
                 Some (result, Some (decode_cleanup d1), nv12_frame)
             | Some (None, d1) \<Rightarrow>
                 (case decode_receive env d1 nv12 of
                    None \<Rightarrow> None
                  | Some (result, d2, nv12') \<Rightarrow>
                      Some (result, Some (decode_cleanup d2), Some nv12')))
      | _ \<Rightarrow> Some (US_MPP_ERROR_INVALID_PARAM, decoder, nv12_frame))"

section \<open>Vocabulary of the statements\<close>

text \<open>
  The frame container's invariant (spec, data model): \<open>used \<le> allocated\<close>, where
  \<open>allocated\<close> is the size of the allocation behind \<open>data\<close> (0 for a null pointer).
\<close>

definition frame_wf :: "us_frame_s \<Rightarrow> bool" where
  "frame_wf frame =
     (allocated frame = length (frame_bytes frame) \<and> used frame \<le> allocated frame)"

text \<open>
  \<open>polls a n\<close>: the polls numbered \<open>a\<close> to \<open>n - 1\<close> with a sleep of 1000 microseconds
  between two of them. \<open>waits a k\<close>: the polls \<open>a\<close> to \<open>k - 1\<close>, each followed by its sleep.
\<close>

definition polls :: "nat \<Rightarrow> nat \<Rightarrow> enc_event list" where
  "polls a n =
     concat (map (\<lambda>k. [EvGetPacket k, EvUsleep 1000]) [a..<n - 1]) @ [EvGetPacket (n - 1)]"

definition waits :: "nat \<Rightarrow> nat \<Rightarrow> enc_event list" where
  "waits a k = concat (map (\<lambda>j. [EvGetPacket j, EvUsleep 1000]) [a..<k])"

section \<open>Concrete inputs\<close>

text \<open>
  A 64x64 encoder as \<^verbatim>\<open>us_mpp_h264_encoder_create\<close> leaves it (strides aligned to 16,
  an input buffer of 64 * 64 * 3 / 2 bytes) after seven frames, a 64x64 NV12 frame, an
  empty output frame, and a five-byte Annex B packet flagged intra.
\<close>

definition demo_stats :: us_mpp_stats_s where
  "demo_stats = \<lparr>frames_processed = 7, processing_errors = 0, last_stats_update = 0,
                  frames_decoded = 0, decode_errors = 0, frames_encoded = 7,
                  encode_errors = 0, keyframes_generated = 1\<rparr>"

definition demo_encoder :: us_mpp_processor_s where
  "demo_encoder = \<lparr>frm_grp = True, frm_buf = replicate 6144 0, pkt_grp = False,
                    frame_holder = True, proc_width = 64, proc_height = 64,
                    hor_stride = 64, ver_stride = 64, initialized = True,
                    processing = False, should_stop = False, consecutive_errors = 0,
                    stats = demo_stats, frame_number = 7\<rparr>"

definition demo_nv12 :: us_frame_s where
  "demo_nv12 = \<lparr>width = 64, height = 64, format = V4L2_PIX_FMT_NV12, stride = 64,
                 used = 6144, allocated = 6144, data = Some (replicate 6144 128)\<rparr>"

definition demo_out :: us_frame_s where
  "demo_out = \<lparr>width = 0, height = 0, format = 0, stride = 0,
                used = 0, allocated = 0, data = None\<rparr>"

definition demo_packet :: mpp_packet where
  "demo_packet = \<lparr>pkt_data = Some [0, 0, 0, 1, 0x65], pkt_length = 5, pkt_meta = Some 1\<rparr>"

definition demo_enc_env :: "(nat \<Rightarrow> MPP_RET \<times> mpp_packet option) \<Rightarrow> enc_env" where
  "demo_enc_env answers = \<lparr>enc_time_start = 1000, enc_time_end = 3000, enc_time_now = 3000,
                            put_frame_ret = MPP_OK, get_packet = answers\<rparr>"

text \<open>
  A frame \<^verbatim>\<open>decode_get_frame\<close> hands back that is none of info-change, error or discard,
  and end-of-stream: the tests the decode call makes before it copies the frame out.
\<close>

definition valid_frame :: "mpp_frame \<Rightarrow> bool" where
  "valid_frame rf =
     (\<not> mpp_frame_get_info_change rf \<and> mpp_frame_get_errinfo rf = 0 \<and>
      mpp_frame_get_discard rf = 0 \<and> \<not> mpp_frame_get_eos rf)"

text \<open>
  A decoder as \<^verbatim>\<open>us_mpp_mjpeg_decoder_create\<close> leaves one for 16x16 (an output buffer of
  16 * 16 * 4 bytes), a four-byte input that starts with the SOI marker, a decoded 16x16
  frame as the hardware hands it back, and a library that answers every call with success.
\<close>

definition demo_decoder :: us_mpp_processor_s where
  "demo_decoder = \<lparr>frm_grp = True, frm_buf = replicate 1024 0, pkt_grp = False,
                    frame_holder = True, proc_width = 16, proc_height = 16,
                    hor_stride = 0, ver_stride = 0, initialized = True,
                    processing = False, should_stop = False, consecutive_errors = 0,
                    stats = demo_stats, frame_number = 7\<rparr>"

definition demo_jpeg :: us_frame_s where
  "demo_jpeg = \<lparr>width = 16, height = 16, format = V4L2_PIX_FMT_MJPEG, stride = 0,
                 used = 4, allocated = 4, data = Some [0xFF, 0xD8, 0xFF, 0xD9]\<rparr>"

definition demo_mpp_frame :: mpp_frame where
  "demo_mpp_frame =
     \<lparr>mpp_frame_get_info_change = False, mpp_frame_get_errinfo = 0,
      mpp_frame_get_discard = 0, mpp_frame_get_eos = False,
      mpp_frame_get_width = 16, mpp_frame_get_height = 16,
      mpp_frame_get_hor_stride = 16, mpp_frame_get_ver_stride = 16,
      mpp_frame_get_buffer =
        Some \<lparr>mpp_buffer_get_ptr = Some (replicate 1024 128), mpp_buffer_get_size = 1024\<rparr>\<rparr>"

definition demo_dec_env :: dec_env where
  "demo_dec_env =
     \<lparr>pkt_grp_ret = MPP_OK, input_buffer_ret = MPP_OK, input_buffer_ptr = True,
      packet_init_ret = MPP_OK, put_packet_ret = MPP_OK, get_frame_ret = MPP_OK,
      returned_frame = Some demo_mpp_frame, ext_group_ret = MPP_OK,
      set_ext_group_ret = MPP_OK, info_change_ready_ret = MPP_OK\<rparr>"

section \<open>The CPU converter I420 to NV12 (format conversion unit)\<close>

text \<open>
  \<^verbatim>\<open>_us_mpp_calc_frame_size_by_format\<close>: the product is formed in 32 bits and widened
  on return.
\<close>

definition us_mpp_calc_frame_size_by_format :: "u32 \<Rightarrow> u32 \<Rightarrow> u32 \<Rightarrow> nat" where
  "us_mpp_calc_frame_size_by_format w h fmt =
     (if fmt = V4L2_PIX_FMT_RGB24 \<or> fmt = V4L2_PIX_FMT_BGR24 then unat (w * h * 3)
      else if fmt = V4L2_PIX_FMT_YUYV then unat (w * h * 2)
      else if fmt = V4L2_PIX_FMT_NV12 then unat (w * h * 3 div 2)
      else if fmt = V4L2_PIX_FMT_NV16 then unat (w * h * 2)
      else if fmt = V4L2_PIX_FMT_YUV420 then unat (w * h * 3 div 2)
      else 0)"

text \<open>
  The converter hands libyuv pointers into two allocations, the source frame's data and
  the destination frame's data, and two of its arguments point into the same one. So
  memory is kept as both allocations (\<open>None\<close>: a null data pointer), and a pointer as
  the allocation it points into and its offset. Reading or writing outside an
  allocation is \<open>None\<close>.
\<close>

datatype region = SrcData | DstData

type_synonym mem = "u8 list option \<times> u8 list option"
type_synonym ptr = "region \<times> nat"

definition region_bytes :: "mem \<Rightarrow> region \<Rightarrow> u8 list option" where
  "region_bytes m r = (case r of SrcData \<Rightarrow> fst m | DstData \<Rightarrow> snd m)"

definition is_null :: "mem \<Rightarrow> ptr \<Rightarrow> bool" where
  "is_null m p = (region_bytes m (fst p) = None \<and> snd p = 0)"

definition ptr_add :: "ptr \<Rightarrow> nat \<Rightarrow> ptr" where
  "ptr_add p n = (fst p, snd p + n)"

definition load :: "mem \<Rightarrow> ptr \<Rightarrow> u8 option" where
  "load m p =
     (case region_bytes m (fst p) of
        None \<Rightarrow> None
      | Some bs \<Rightarrow> if snd p < length bs then Some (bs ! snd p) else None)"

definition store :: "mem \<Rightarrow> ptr \<Rightarrow> u8 \<Rightarrow> mem option" where
  "store m p v =
     (case region_bytes m (fst p) of
        None \<Rightarrow> None
      | Some bs \<Rightarrow>
          if snd p < length bs
          then Some (case fst p of
                       SrcData \<Rightarrow> (Some (bs[snd p := v]), snd m)
                     | DstData \<Rightarrow> (fst m, Some (bs[snd p := v])))
          else None)"

text \<open>A counted loop whose body can fail: \<^verbatim>\<open>for (i = 0; i < n; i++) body(i)\<close>.\<close>

fun for_each :: "nat list \<Rightarrow> (nat \<Rightarrow> 's \<Rightarrow> 's option) \<Rightarrow> 's \<Rightarrow> 's option" where
  "for_each [] body s = Some s"
| "for_each (i # rest) body s =
     (case body i s of None \<Rightarrow> None | Some s' \<Rightarrow> for_each rest body s')"

text \<open>
  libyuv is an outside library; the three functions below follow its documented
  behaviour. \<^verbatim>\<open>CopyPlane\<close> copies \<open>height\<close> rows of \<open>width\<close> bytes and does nothing when
  source and destination coincide. \<^verbatim>\<open>MergeUVPlane\<close> interleaves a U and a V plane.
  \<^verbatim>\<open>I420ToNV12\<close> returns -1 on a null plane or an empty image, copies Y when \<open>dst_y\<close>
  is not null, and merges the chroma planes of \<open>(width + 1) / 2\<close> by \<open>(height + 1) / 2\<close>.
  A negative height asks libyuv for a flipped image; the model leaves that case out
  (\<open>None\<close>).
\<close>

definition copy_byte :: "ptr \<Rightarrow> ptr \<Rightarrow> mem \<Rightarrow> mem option" where
  "copy_byte src dst m = (case load m src of None \<Rightarrow> None | Some v \<Rightarrow> store m dst v)"

definition CopyPlane :: "ptr \<Rightarrow> nat \<Rightarrow> ptr \<Rightarrow> nat \<Rightarrow> nat \<Rightarrow> nat \<Rightarrow> mem \<Rightarrow> mem option" where
  "CopyPlane src_y src_stride_y dst_y dst_stride_y w h m =
     (if src_y = dst_y \<and> src_stride_y = dst_stride_y then Some m
      else for_each [0..<h] (\<lambda>y. for_each [0..<w] (\<lambda>x.
             copy_byte (ptr_add src_y (y * src_stride_y + x))
                       (ptr_add dst_y (y * dst_stride_y + x)))) m)"

definition MergeUVPlane ::
  "ptr \<Rightarrow> nat \<Rightarrow> ptr \<Rightarrow> nat \<Rightarrow> ptr \<Rightarrow> nat \<Rightarrow> nat \<Rightarrow> nat \<Rightarrow> mem \<Rightarrow> mem option" where
  "MergeUVPlane src_u src_stride_u src_v src_stride_v dst_uv dst_stride_uv w h m =
     for_each [0..<h] (\<lambda>y. for_each [0..<w] (\<lambda>x m1.
       case copy_byte (ptr_add src_u (y * src_stride_u + x))
                      (ptr_add dst_uv (y * dst_stride_uv + 2 * x)) m1 of
         None \<Rightarrow> None
       | Some m2 \<Rightarrow> copy_byte (ptr_add src_v (y * src_stride_v + x))
                              (ptr_add dst_uv (y * dst_stride_uv + 2 * x + 1)) m2)) m"

definition I420ToNV12 ::
  "ptr \<Rightarrow> int \<Rightarrow> ptr \<Rightarrow> int \<Rightarrow> ptr \<Rightarrow> int \<Rightarrow> ptr \<Rightarrow> int \<Rightarrow> ptr \<Rightarrow> int \<Rightarrow> int \<Rightarrow> int \<Rightarrow>
   mem \<Rightarrow> (int \<times> mem) option" where
  "I420ToNV12 src_y src_stride_y src_u src_stride_u src_v src_stride_v
              dst_y dst_stride_y dst_uv dst_stride_uv w h m =
     (if is_null m src_y \<or> is_null m src_u \<or> is_null m src_v \<or> is_null m dst_uv
         \<or> w \<le> 0 \<or> h = 0
      then Some (- 1, m)
      else if h < 0 then None
      else
        (case (if is_null m dst_y then Some m
               else CopyPlane src_y (nat src_stride_y) dst_y (nat dst_stride_y)
                      (nat w) (nat h) m) of
           None \<Rightarrow> None
         | Some m1 \<Rightarrow>
             (case MergeUVPlane src_u (nat src_stride_u) src_v (nat src_stride_v)
                     dst_uv (nat dst_stride_uv) (nat ((w + 1) div 2)) (nat ((h + 1) div 2)) m1 of
                None \<Rightarrow> None
              | Some m2 \<Rightarrow> Some (0, m2))))"

text \<open>
  \<^verbatim>\<open>_us_mpp_convert_yuv420_to_nv12\<close>. The pointers are the source's: \<open>y_plane\<close> and
  \<open>uv_plane\<close> point into the destination's data, \<open>u_plane\<close> and \<open>v_plane\<close> into the
  source's, and the call passes \<open>y_plane\<close> both as libyuv's source Y and as its
  destination Y.
\<close>

definition us_mpp_convert_yuv420_to_nv12 ::
  "us_frame_s option \<Rightarrow> us_frame_s option \<Rightarrow> (us_mpp_error_e \<times> us_frame_s option) option" where
  "us_mpp_convert_yuv420_to_nv12 yuv420_frame nv12_frame =
     (case (yuv420_frame, nv12_frame) of
        (Some yuv420, Some nv12) \<Rightarrow>
          if format yuv420 \<noteq> V4L2_PIX_FMT_YUV420
          then Some (US_MPP_ERROR_FORMAT_UNSUPPORTED, nv12_frame)
          else
            (let w = width yuv420; h = height yuv420;
                 nv12_size = us_mpp_calc_frame_size_by_format w h V4L2_PIX_FMT_NV12;
                 f1 = (if allocated nv12 < nv12_size
                       then us_frame_realloc_data nv12 nv12_size else nv12)
             in if allocated nv12 < nv12_size \<and> data f1 = None
                then Some (US_MPP_ERROR_MEMORY, Some f1)
                else
                  (let y_plane = (DstData, 0);
                       uv_plane = (DstData, unat (w * h));
                       u_plane = (SrcData, unat (w * h));
                       v_plane = ptr_add u_plane (unat ((w * h) div 4))
                   in case I420ToNV12 y_plane (sint w)
                                      u_plane (sint (w div 2))
                                      v_plane (sint (w div 2))
                                      y_plane (sint w)
                                      uv_plane (sint w)
                                      (sint w) (sint h)
                                      (data yuv420, data f1) of
                        None \<Rightarrow> None
                      | Some (ret, m) \<Rightarrow>
                          if ret \<noteq> 0
                          then Some (US_MPP_ERROR_FORMAT_UNSUPPORTED,
                                     Some (f1\<lparr>data := snd m\<rparr>))
                          else Some (US_MPP_OK,
                                     Some (f1\<lparr>width := w, height := h,
                                              format := V4L2_PIX_FMT_NV12,
                                              used := nv12_size, data := snd m\<rparr>))))
      | _ \<Rightarrow> Some (US_MPP_ERROR_INVALID_PARAM, nv12_frame))"

text \<open>
  A 2x2 I420 frame (Y = 1, 2, 3, 4; U = 5; V = 6) and a destination frame that already
  owns six bytes from an earlier use.
\<close>

definition demo_i420 :: us_frame_s where
  "demo_i420 = \<lparr>width = 2, height = 2, format = V4L2_PIX_FMT_YUV420, stride = 2,
                 used = 6, allocated = 6, data = Some [1, 2, 3, 4, 5, 6]\<rparr>"

definition demo_dst :: us_frame_s where
  "demo_dst = \<lparr>width = 0, height = 0, format = 0, stride = 0,
                used = 0, allocated = 6, data = Some [9, 9, 9, 9, 9, 9]\<rparr>"

section \<open>Display-mode selection (drm.c)\<close>

type_synonym u16 = "16 word"

text \<open>
  \<^verbatim>\<open>drmModeModeInfo\<close> of xf86drmMode.h: the fields the selection reads. The flag bits
  are those of drm_mode.h.
\<close>

record drmModeModeInfo =
  clock :: u32
  hdisplay :: u16
  htotal :: u16
  vdisplay :: u16
  vtotal :: u16
  vscan :: u16
  flags :: u32
  mode_type :: u32

definition DRM_MODE_FLAG_INTERLACE :: u32 where "DRM_MODE_FLAG_INTERLACE = 0x10"

definition DRM_MODE_FLAG_DBLSCAN :: u32 where "DRM_MODE_FLAG_DBLSCAN = 0x20"

definition DRM_MODE_TYPE_PREFERRED :: u32 where "DRM_MODE_TYPE_PREFERRED = 0x08"

definition interlaced :: "drmModeModeInfo \<Rightarrow> bool" where
  "interlaced mode = (flags mode AND DRM_MODE_FLAG_INTERLACE \<noteq> 0)"

text \<open>
  \<^verbatim>\<open>_get_refresh_rate\<close> computes an integer number of millihertz, \<open>refresh_mhz\<close>, and
  returns it, as a float, divided by 1000.

  \<^item> The first line is computed in \<^verbatim>\<open>long long\<close>, where nothing overflows and every
    operand is non-negative; a division by a zero \<open>htotal\<close> or \<open>vtotal\<close> is undefined
    (\<open>None\<close>). The result is stored in an \<^verbatim>\<open>int\<close>: \<open>to_int32\<close>.
  \<^item> \<^verbatim>\<open>mhz *= 2\<close> is a signed multiplication; its overflow is undefined (\<open>None\<close>).
  \<^item> \<^verbatim>\<open>mhz /= 2\<close> and \<^verbatim>\<open>mhz /= mode->vscan\<close> are C's division of \<^verbatim>\<open>int\<close>, which
    truncates toward zero: \<open>c_div\<close>.
  \<^item> The float is kept as the real number it stands for, and the last step,
    \<^verbatim>\<open>(float)mhz / 1000\<close>, is the parameter \<open>fl\<close>.
\<close>

definition to_int32 :: "int \<Rightarrow> int" where
  "to_int32 x = sint (word_of_int x :: 32 word)"

definition c_div :: "int \<Rightarrow> int \<Rightarrow> int" where
  "c_div a b = sgn a * sgn b * (\<bar>a\<bar> div \<bar>b\<bar>)"

definition refresh_mhz :: "drmModeModeInfo \<Rightarrow> int option" where
  "refresh_mhz mode =
     (if htotal mode = 0 \<or> vtotal mode = 0 then None
      else
        (let m0 = to_int32 ((uint (clock mode) * 1000000 div uint (htotal mode)
                             + uint (vtotal mode) div 2) div uint (vtotal mode))
         in if interlaced mode \<and> (m0 * 2 < - (2 ^ 31) \<or> 2 ^ 31 \<le> m0 * 2) then None
            else
              (let m1 = (if interlaced mode then m0 * 2 else m0);
                   m2 = (if flags mode AND DRM_MODE_FLAG_DBLSCAN \<noteq> 0 then c_div m1 2
                         else m1)
               in Some (if 1 < uint (vscan mode) then c_div m2 (uint (vscan mode))
                        else m2))))"

definition get_refresh_rate :: "(int \<Rightarrow> real) \<Rightarrow> drmModeModeInfo \<Rightarrow> real option" where
  "get_refresh_rate fl mode = map_option fl (refresh_mhz mode)"

text \<open>
  The third test of the loop body: a mode of the requested width and a smaller height
  replaces \<open>closest\<close> when there is none yet, or when the rate of the one held, computed
  by another call of \<^verbatim>\<open>_get_refresh_rate\<close>, differs from \<open>hz\<close>.
\<close>

definition closest_step ::
  "(int \<Rightarrow> real) \<Rightarrow> u32 \<Rightarrow> u32 \<Rightarrow> real \<Rightarrow> drmModeModeInfo list \<Rightarrow> nat \<Rightarrow> nat option \<Rightarrow>
   nat option option" where
  "closest_step fl w h hz modes mi closest =
     (if ucast (hdisplay (modes ! mi)) = w \<and> ucast (vdisplay (modes ! mi)) < h
      then
        (case closest of
           None \<Rightarrow> Some (Some mi)
         | Some c \<Rightarrow>
             (case get_refresh_rate fl (modes ! c) of
                None \<Rightarrow> None
              | Some closest_hz \<Rightarrow> Some (if closest_hz \<noteq> hz then Some mi else closest)))
      else Some closest)"

text \<open>
  The loop of \<^verbatim>\<open>_find_best_mode\<close> from index \<open>mi\<close> on. The three candidates are
  pointers into the connector's mode array, kept as indices; the special case writes
  through its pointer, so the array is part of the result. \<open>None\<close>: a call of
  \<^verbatim>\<open>_get_refresh_rate\<close> was undefined.
\<close>

function scan_modes ::
  "(int \<Rightarrow> real) \<Rightarrow> u32 \<Rightarrow> u32 \<Rightarrow> real \<Rightarrow> drmModeModeInfo list \<Rightarrow> nat \<Rightarrow>
   nat option \<Rightarrow> nat option \<Rightarrow> nat option \<Rightarrow>
   (nat option \<times> nat option \<times> nat option \<times> drmModeModeInfo list) option" where
  "scan_modes fl w h hz modes mi best closest pref =
     (if length modes \<le> mi then Some (best, closest, pref, modes)
      else if interlaced (modes ! mi)
      then scan_modes fl w h hz modes (mi + 1) best closest pref
      else
        (case get_refresh_rate fl (modes ! mi) of
           None \<Rightarrow> None
         | Some mode_hz \<Rightarrow>
             if w = 640 \<and> h = 416 \<and> hdisplay (modes ! mi) = 640
                \<and> vdisplay (modes ! mi) = 480 \<and> 0 < hz \<and> mode_hz < hz
             then Some (Some mi, closest, pref, modes[mi := (modes ! mi)\<lparr>vdisplay := 416\<rparr>])
             else if ucast (hdisplay (modes ! mi)) = w \<and> ucast (vdisplay (modes ! mi)) = h
                     \<and> 0 < hz \<and> mode_hz = hz
             then Some (Some mi, closest, pref, modes)
             else
               (case closest_step fl w h hz modes mi closest of
                  None \<Rightarrow> None
                | Some closest' \<Rightarrow>
                    scan_modes fl w h hz modes (mi + 1)
                      (if ucast (hdisplay (modes ! mi)) = w
                          \<and> ucast (vdisplay (modes ! mi)) = h
                       then Some mi else best)
                      closest'
                      (if pref = None
                          \<and> mode_type (modes ! mi) AND DRM_MODE_TYPE_PREFERRED \<noteq> 0
                       then Some mi else pref))))"
  by pat_completeness auto

termination
  by (relation "measure (\<lambda>(fl, w, h, hz, modes, mi, best, closest, pref). length modes - mi)")
     auto

declare scan_modes.simps [simp del]

text \<open>
  \<^verbatim>\<open>_find_best_mode\<close>: the scan, then the fallbacks (closest, preferred, the first mode
  of the array), then the two assertions; a failed assertion is \<open>None\<close>. The result is
  the index of the returned mode (\<open>None\<close>: NULL) and the connector's array after the call.
\<close>

definition find_best_mode ::
  "(int \<Rightarrow> real) \<Rightarrow> drmModeModeInfo list \<Rightarrow> u32 \<Rightarrow> u32 \<Rightarrow> real \<Rightarrow>
   (nat option \<times> drmModeModeInfo list) option" where
  "find_best_mode fl modes w h hz =
     (case scan_modes fl w h hz modes 0 None None None of
        None \<Rightarrow> None
      | Some (best, closest, pref, modes') \<Rightarrow>
          (let b1 = (if best = None then closest else best);
               b2 = (if b1 = None then pref else b1);
               b3 = (if b2 = None then (if 0 < length modes' then Some 0 else None) else b2)
           in case b3 of
                None \<Rightarrow> Some (None, modes')
              | Some i \<Rightarrow>
                  if hdisplay (modes' ! i) = 0 \<or> vdisplay (modes' ! i) = 0 then None
                  else Some (Some i, modes')))"

text \<open>
  Concrete inputs: the float division read exactly; the 640x480 VGA mode at 59.94 Hz,
  the 1920x1080 interlaced mode at 60 Hz and the 1280x720 mode at 60 Hz with their
  standard timings.
\<close>

definition float_div_1000 :: "int \<Rightarrow> real" where
  "float_div_1000 mhz = real_of_int mhz / 1000"

definition vga_640x480 :: drmModeModeInfo where
  "vga_640x480 = \<lparr>clock = 25175, hdisplay = 640, htotal = 800, vdisplay = 480,
                   vtotal = 525, vscan = 0, flags = 0x0A, mode_type = 0x40\<rparr>"

definition hd_1080i :: drmModeModeInfo where
  "hd_1080i = \<lparr>clock = 74250, hdisplay = 1920, htotal = 2200, vdisplay = 1080,
                vtotal = 1125, vscan = 0, flags = 0x15, mode_type = 0x40\<rparr>"

definition hd_720p :: drmModeModeInfo where
  "hd_720p = \<lparr>clock = 74250, hdisplay = 1280, htotal = 1650, vdisplay = 720,
               vtotal = 750, vscan = 0, flags = 0x05, mode_type = 0x48\<rparr>"

text \<open>
  Vocabulary for the statements about the scan. \<open>scan_passes\<close>: the loop body, at a mode
  it does not skip, computes the mode's rate and does not break (neither the 640x416
  special case nor an exact mode at the requested rate). \<open>candidate_ok\<close>: a candidate
  pointer is null, or points at a mode of the array that is not interlaced and whose
  rate is defined.
\<close>

definition scan_passes :: "(int \<Rightarrow> real) \<Rightarrow> u32 \<Rightarrow> u32 \<Rightarrow> real \<Rightarrow> drmModeModeInfo \<Rightarrow> bool" where
  "scan_passes fl w h hz mode =
     (case get_refresh_rate fl mode of
        None \<Rightarrow> False
      | Some mode_hz \<Rightarrow>
          \<not> (w = 640 \<and> h = 416 \<and> hdisplay mode = 640 \<and> vdisplay mode = 480
               \<and> 0 < hz \<and> mode_hz < hz)
          \<and> \<not> (ucast (hdisplay mode) = w \<and> ucast (vdisplay mode) = h
               \<and> 0 < hz \<and> mode_hz = hz))"

definition candidate_ok ::
  "(int \<Rightarrow> real) \<Rightarrow> drmModeModeInfo list \<Rightarrow> nat option \<Rightarrow> bool" where
  "candidate_ok fl modes c =
     (case c of
        None \<Rightarrow> True
      | Some i \<Rightarrow> i < length modes \<and> \<not> interlaced (modes ! i)
                  \<and> get_refresh_rate fl (modes ! i) \<noteq> None)"

section \<open>Centering and the RGB24 display converter (drm.c)\<close>

text \<open>
  The geometry of the display path is \<^verbatim>\<open>uint\<close> throughout. Here it is kept as natural
  numbers, and every sum or product the source forms in 32 bits is wrapped by \<open>wrap32\<close>.
\<close>

definition wrap32 :: "nat \<Rightarrow> nat" where
  "wrap32 n = n mod 2 ^ 32"

record us_drm_center_s =
  src_width :: nat
  src_height :: nat
  dst_width :: nat
  dst_height :: nat
  offset_x :: nat
  offset_y :: nat
  needs_center :: bool

text \<open>
  \<^verbatim>\<open>_drm_calculate_center\<close>. The subtractions are made under the guard, where they
  cannot wrap.
\<close>

definition drm_calculate_center :: "nat \<Rightarrow> nat \<Rightarrow> nat \<Rightarrow> nat \<Rightarrow> us_drm_center_s" where
  "drm_calculate_center src_w src_h dst_w dst_h =
     (if src_w \<le> dst_w \<and> src_h \<le> dst_h
      then \<lparr>src_width = src_w, src_height = src_h, dst_width = dst_w, dst_height = dst_h,
            offset_x = (dst_w - src_w) div 2, offset_y = (dst_h - src_h) div 2,
            needs_center = True\<rparr>
      else \<lparr>src_width = src_w, src_height = src_h, dst_width = dst_w, dst_height = dst_h,
            offset_x = 0, offset_y = 0, needs_center = False\<rparr>)"

text \<open>Reads and writes through a pointer with an offset; outside the allocation: \<open>None\<close>.\<close>

definition read_byte :: "u8 list \<Rightarrow> nat \<Rightarrow> u8 option" where
  "read_byte bs i = (if i < length bs then Some (bs ! i) else None)"

fun write_bytes :: "u8 list \<Rightarrow> nat \<Rightarrow> u8 list \<Rightarrow> u8 list option" where
  "write_bytes bs i [] = Some bs"
| "write_bytes bs i (v # vs) =
     (if i < length bs then write_bytes (bs[i := v]) (i + 1) vs else None)"

text \<open>
  The inner loop of \<^verbatim>\<open>_drm_convert_rgb24\<close> from column \<open>x\<close> on. \<open>src_row\<close> and
  \<open>dst_row\<close> are the offsets of the two row pointers.
\<close>

function rgb24_pixels ::
  "u8 list \<Rightarrow> nat \<Rightarrow> nat \<Rightarrow> us_drm_center_s \<Rightarrow> nat \<Rightarrow> nat \<Rightarrow> nat \<Rightarrow> nat \<Rightarrow> nat \<Rightarrow>
   u8 list \<Rightarrow> u8 list option" where
  "rgb24_pixels src_data src_row src_w center dst_w bytes_per_pixel src_stride dst_row x dst =
     (if x < src_w \<and> x < src_width center \<and> wrap32 (x + offset_x center) < dst_w
      then
        (if src_stride \<le> wrap32 (wrap32 (x * 3) + 2) then Some dst
         else
           (case (read_byte src_data (src_row + wrap32 (wrap32 (x * 3) + 0)),
                  read_byte src_data (src_row + wrap32 (wrap32 (x * 3) + 1)),
                  read_byte src_data (src_row + wrap32 (wrap32 (x * 3) + 2))) of
              (Some R, Some G, Some B) \<Rightarrow>
                (case write_bytes dst (dst_row + wrap32 (x * bytes_per_pixel))
                        (if bytes_per_pixel = 4 then [B, G, R, 0xFF] else [R, G, B]) of
                   None \<Rightarrow> None
                 | Some dst' \<Rightarrow>
                     rgb24_pixels src_data src_row src_w center dst_w bytes_per_pixel
                       src_stride dst_row (x + 1) dst')
            | _ \<Rightarrow> None))
      else Some dst)"
  by pat_completeness auto

termination
  by (relation "measure (\<lambda>(src_data, src_row, src_w, center, dst_w, bytes_per_pixel,
                          src_stride, dst_row, x, dst). src_w - x)") auto

declare rgb24_pixels.simps [simp del]

text \<open>The outer loop from row \<open>y\<close> on.\<close>

function rgb24_rows ::
  "u8 list \<Rightarrow> nat \<Rightarrow> nat \<Rightarrow> us_drm_center_s \<Rightarrow> nat \<Rightarrow> nat \<Rightarrow> nat \<Rightarrow> nat \<Rightarrow> nat \<Rightarrow>
   u8 list \<Rightarrow> u8 list option" where
  "rgb24_rows src_data src_w src_h center dst_stride bytes_per_pixel dst_w dst_h y dst =
     (if y < src_h \<and> y < src_height center \<and> wrap32 (y + offset_y center) < dst_h
      then
        (case rgb24_pixels src_data (wrap32 (y * wrap32 (src_w * 3))) src_w center dst_w
                bytes_per_pixel (wrap32 (src_w * 3))
                (wrap32 (wrap32 (y + offset_y center) * dst_stride)
                   + wrap32 (offset_x center * bytes_per_pixel))
                0 dst of
           None \<Rightarrow> None
         | Some dst' \<Rightarrow>
             rgb24_rows src_data src_w src_h center dst_stride bytes_per_pixel dst_w dst_h
               (y + 1) dst')
      else Some dst)"
  by pat_completeness auto

termination
  by (relation "measure (\<lambda>(src_data, src_w, src_h, center, dst_stride, bytes_per_pixel,
                          dst_w, dst_h, y, dst). src_h - y)") auto

declare rgb24_rows.simps [simp del]

definition drm_convert_rgb24 ::
  "u8 list \<Rightarrow> nat \<Rightarrow> nat \<Rightarrow> u8 list \<Rightarrow> us_drm_center_s \<Rightarrow> nat \<Rightarrow> nat \<Rightarrow> nat \<Rightarrow> nat \<Rightarrow>
   u8 list option" where
  "drm_convert_rgb24 src_data src_w src_h dst_data center dst_stride dst_bpp dst_w dst_h =
     rgb24_rows src_data src_w src_h center dst_stride (dst_bpp div 8) dst_w dst_h 0 dst_data"

section \<open>The software JPEG decoder (unjpeg.c)\<close>

text \<open>
  libjpeg is an outside library. \<open>jpeg_decompress\<close> is what it reports about the stream in
  the source frame and what it delivers: the stage at which it raises an error, if any
  (the error handler jumps back into \<^verbatim>\<open>us_unjpeg\<close>, which returns -1), the number of
  components and their sampling factors, the output dimensions, the bytes the raw reads
  leave in the three planes, and the RGB scan-lines.
\<close>

datatype jpeg_stage = AtHeader | AtStart | AtRead | AtFinish

record jpeg_decompress =
  jd_error :: "jpeg_stage option"
  num_components :: int
  h_samp_factor :: "nat \<Rightarrow> int"
  v_samp_factor :: "nat \<Rightarrow> int"
  output_width :: u32
  output_height :: u32
  raw_planes :: "u8 list"
  scanline :: "nat \<Rightarrow> u8 list"

text \<open>
  libjpeg: with \<^verbatim>\<open>out_color_space = JCS_RGB\<close> and no colour quantisation (the default)
  \<^verbatim>\<open>output_components\<close> is \<^verbatim>\<open>RGB_PIXELSIZE\<close>, 3.
\<close>

definition RGB_PIXELSIZE :: u32 where
  "RGB_PIXELSIZE = 3"

text \<open>
  Modelled from the spec: \<^verbatim>\<open>us_is_jpeg\<close>, \<^verbatim>\<open>US_FRAME_COPY_META\<close> and
  \<^verbatim>\<open>us_frame_append_data\<close> live in libs/frame.h and libs/frame.c, which are not among
  the sources. The spec: MJPEG and JPEG are the two JPEG tags; clone-meta copies all
  scalar fields except \<open>data\<close>, \<open>used\<close>, \<open>allocated\<close>; append-bytes grows the buffer when
  needed and increases \<open>used\<close> by \<open>n\<close>.
\<close>

definition us_is_jpeg :: "u32 \<Rightarrow> bool" where
  "us_is_jpeg fmt = (fmt = V4L2_PIX_FMT_MJPEG \<or> fmt = V4L2_PIX_FMT_JPEG)"

definition US_FRAME_COPY_META :: "us_frame_s \<Rightarrow> us_frame_s \<Rightarrow> us_frame_s" where
  "US_FRAME_COPY_META src dest =
     dest\<lparr>width := width src, height := height src, format := format src,
          stride := stride src\<rparr>"

definition us_frame_append_data :: "us_frame_s \<Rightarrow> u8 list \<Rightarrow> nat \<Rightarrow> us_frame_s" where
  "us_frame_append_data frame bytes n =
     (let f1 = us_frame_realloc_data frame (used frame + n)
      in f1\<lparr>data := Some (take (used frame) (frame_bytes f1)
                           @ take n (bytes @ replicate n 0)
                           @ drop (used frame + n) (frame_bytes f1)),
             used := used frame + n\<rparr>)"

text \<open>The test the decoder makes on the header: three components sampled 2x2, 1x1, 1x1.\<close>

definition is_420 :: "jpeg_decompress \<Rightarrow> bool" where
  "is_420 jpeg =
     (h_samp_factor jpeg 0 = 2 \<and> v_samp_factor jpeg 0 = 2 \<and>
      h_samp_factor jpeg 1 = 1 \<and> v_samp_factor jpeg 1 = 1 \<and>
      h_samp_factor jpeg 2 = 1 \<and> v_samp_factor jpeg 2 = 1)"

text \<open>
  The raw-plane branch, after \<^verbatim>\<open>jpeg_start_decompress\<close>. The sizes are \<^verbatim>\<open>uz\<close>
  (64 bits; no wrap for 32-bit dimensions).
\<close>

definition unjpeg_yuv420 :: "jpeg_decompress \<Rightarrow> us_frame_s \<Rightarrow> us_frame_s \<Rightarrow> int \<times> us_frame_s" where
  "unjpeg_yuv420 jpeg src dest =
     (let d1 = (US_FRAME_COPY_META src dest)
                 \<lparr>width := output_width jpeg, height := output_height jpeg,
                  format := V4L2_PIX_FMT_YUV420, stride := output_width jpeg\<rparr>;
          y_size = unat (width d1) * unat (height d1);
          uv_w = unat (width d1) div 2;
          uv_h = unat (height d1) div 2;
          c_size = uv_w * uv_h;
          need = y_size + 2 * c_size;
          d2 = (us_frame_realloc_data d1 need)\<lparr>used := need\<rparr>
      in if jd_error jpeg = Some AtRead then (- 1, d2)
         else
           (let d3 = d2\<lparr>data := Some (take need (raw_planes jpeg @ replicate need 0)
                                      @ drop need (frame_bytes d2))\<rparr>
            in if jd_error jpeg = Some AtFinish then (- 1, d3) else (0, d3)))"

text \<open>The scan-line loop of the RGB branch, from line \<open>k\<close> on.\<close>

fun read_scanlines :: "jpeg_decompress \<Rightarrow> nat list \<Rightarrow> us_frame_s \<Rightarrow> us_frame_s" where
  "read_scanlines jpeg [] dest = dest"
| "read_scanlines jpeg (k # ks) dest =
     read_scanlines jpeg ks (us_frame_append_data dest (scanline jpeg k) (unat (stride dest)))"

definition unjpeg_rgb24 ::
  "jpeg_decompress \<Rightarrow> us_frame_s \<Rightarrow> us_frame_s \<Rightarrow> bool \<Rightarrow> int \<times> us_frame_s" where
  "unjpeg_rgb24 jpeg src dest decode =
     (let d1 = (US_FRAME_COPY_META src dest)
                 \<lparr>width := output_width jpeg, height := output_height jpeg,
                  format := V4L2_PIX_FMT_RGB24,
                  stride := output_width jpeg * RGB_PIXELSIZE, used := 0\<rparr>
      in if decode
         then
           (let d2 = us_frame_realloc_data d1
                       (unat (push_bit 1 (width d1 * height d1) * 2))
            in if jd_error jpeg = Some AtRead then (- 1, d2)
               else
                 (let d3 = read_scanlines jpeg [0..<unat (output_height jpeg)] d2
                  in if jd_error jpeg = Some AtFinish then (- 1, d3) else (0, d3)))
         else (0, d1))"

text \<open>
  \<^verbatim>\<open>us_unjpeg\<close>. \<open>None\<close> is the failed assertion on the source format; the first
  component is the function's return value.
\<close>

definition us_unjpeg ::
  "jpeg_decompress \<Rightarrow> us_frame_s \<Rightarrow> us_frame_s \<Rightarrow> bool \<Rightarrow> (int \<times> us_frame_s) option" where
  "us_unjpeg jpeg src dest decode =
     (if \<not> us_is_jpeg (format src) then None
      else if jd_error jpeg = Some AtHeader then Some (- 1, dest)
      else if decode \<and> num_components jpeg = 3 \<and> is_420 jpeg
      then (if jd_error jpeg = Some AtStart then Some (- 1, dest)
            else Some (unjpeg_yuv420 jpeg src dest))
      else (if jd_error jpeg = Some AtStart then Some (- 1, dest)
            else Some (unjpeg_rgb24 jpeg src dest decode)))"

text \<open>
  Two streams as libjpeg reports them: 1920x1080 sampled 4:2:0 and 640x480 sampled 4:2:2.
\<close>

definition demo_stream_420 :: jpeg_decompress where
  "demo_stream_420 =
     \<lparr>jd_error = None, num_components = 3,
      h_samp_factor = (\<lambda>i. if i = 0 then 2 else 1),
      v_samp_factor = (\<lambda>i. if i = 0 then 2 else 1),
      output_width = 1920, output_height = 1080,
      raw_planes = replicate 3110400 128, scanline = (\<lambda>k. [])\<rparr>"

definition demo_stream_422 :: jpeg_decompress where
  "demo_stream_422 =
     \<lparr>jd_error = None, num_components = 3,
      h_samp_factor = (\<lambda>i. if i = 0 then 2 else 1),
      v_samp_factor = (\<lambda>i. 1),
      output_width = 640, output_height = 480,
      raw_planes = [], scanline = (\<lambda>k. replicate 1920 128)\<rparr>"

section \<open>Format routing and the transcoder (mpp_transcoder.c)\<close>

datatype us_mpp_conversion_type_e =
    US_MPP_FORMAT_CONVERSION_NONE
  | US_MPP_FORMAT_CONVERSION_CPU
  | US_MPP_FORMAT_CONVERSION_HW

record us_mpp_format_info_s =
  input_format :: u32
  output_format :: u32
  conversion_type :: us_mpp_conversion_type_e
  needs_conversion :: bool












text \<open>
  \<^verbatim>\<open>us_mpp_transcoder_s\<close>, as \<^verbatim>\<open>us_mpp_transcoder_create\<close> leaves it: both frame
  buffers allocated. \<open>nv12_input\<close> in the source is a pointer to one of three frames;
  \<open>nv12_source\<close> says which.
\<close>

record us_mpp_transcoder_s =
  decoder :: "us_mpp_processor_s option"
  encoder :: "us_mpp_processor_s option"
  nv12_buffer :: us_frame_s
  conversion_buffer :: us_frame_s
  tc_initialized :: bool
  current_input_format :: u32
  needs_format_conversion :: bool
  format_info :: us_mpp_format_info_s













chapter \<open>Properties\<close>

section \<open>The encoder\<close>

text \<open>
  C10. An encode call on an initialised encoder whose input frame is not NV12 returns
  FormatUnsupported; one whose input is NV12 with \<open>used = 0\<close> or a null data pointer
  returns InvalidParam. Either way the encoder record (input buffer and statistics
  included) and the output frame come back as they went in, and no outside call was made.
\<close>

theorem encode_rejects_bad_input:
  assumes "initialized enc"
  shows "(format nv12 \<noteq> V4L2_PIX_FMT_NV12 \<longrightarrow>
            us_mpp_h264_encoder_encode env (Some enc) (Some nv12) (Some h264) force_key
              = Some (US_MPP_ERROR_FORMAT_UNSUPPORTED, Some enc, Some h264, []))
       \<and> (format nv12 = V4L2_PIX_FMT_NV12 \<and> (used nv12 = 0 \<or> data nv12 = None) \<longrightarrow>
            us_mpp_h264_encoder_encode env (Some enc) (Some nv12) (Some h264) force_key
              = Some (US_MPP_ERROR_INVALID_PARAM, Some enc, Some h264, []))"
  using assms
  by (auto simp: us_mpp_h264_encoder_encode_def us_mpp_is_format_supported_for_encode_def)

theorem encode_rejects_bad_input_witness:
  "initialized demo_encoder
   \<and> us_mpp_h264_encoder_encode (demo_enc_env (\<lambda>k. (MPP_OK, None))) (Some demo_encoder)
        (Some (demo_nv12\<lparr>format := V4L2_PIX_FMT_YUYV\<rparr>)) (Some demo_out) False
      = Some (US_MPP_ERROR_FORMAT_UNSUPPORTED, Some demo_encoder, Some demo_out, [])
   \<and> us_mpp_h264_encoder_encode (demo_enc_env (\<lambda>k. (MPP_OK, None))) (Some demo_encoder)
        (Some (demo_nv12\<lparr>used := 0\<rparr>)) (Some demo_out) False
      = Some (US_MPP_ERROR_INVALID_PARAM, Some demo_encoder, Some demo_out, [])"
proof -
  have i: "initialized demo_encoder" by (simp add: demo_encoder_def)
  show ?thesis
    using i
      encode_rejects_bad_input [OF i, of "demo_nv12\<lparr>format := V4L2_PIX_FMT_YUYV\<rparr>"
        "demo_enc_env (\<lambda>k. (MPP_OK, None))" demo_out False]
      encode_rejects_bad_input [OF i, of "demo_nv12\<lparr>used := 0\<rparr>"
        "demo_enc_env (\<lambda>k. (MPP_OK, None))" demo_out False]
    by (simp add: demo_nv12_def fourcc_defs)
qed

subsection \<open>The output-fetch loop\<close>

lemma extract_keeps:
  "us_mpp_h264_extract_output_packet e p f = Some (r, e', f') \<Longrightarrow>
   frames_processed (stats e') = frames_processed (stats e) \<and>
   consecutive_errors e' = consecutive_errors e \<and> processing e' = processing e \<and>
   frm_buf e' = frm_buf e \<and> frame_number e' = frame_number e"
  by (auto simp: us_mpp_h264_extract_output_packet_def Let_def
           split: option.splits if_splits)

lemma loop_keeps:
  "get_packet_loop env rc e f tr = Some (r, e', f', tr') \<Longrightarrow>
   frames_processed (stats e') = frames_processed (stats e) \<and>
   consecutive_errors e' = consecutive_errors e \<and> processing e' = processing e \<and>
   frm_buf e' = frm_buf e \<and> frame_number e' = frame_number e"
proof (induction env rc e f tr rule: get_packet_loop.induct)
  case (1 env rc e f tr)
  show ?case
    using "1.prems" "1.IH"
    by (subst (asm) get_packet_loop.simps)
       (auto split: if_splits option.splits dest: extract_keeps)
qed

lemma polls_single: "polls a (Suc a) = [EvGetPacket a]"
  by (simp add: polls_def)

lemma polls_step:
  "Suc a < n \<Longrightarrow> [EvGetPacket a, EvUsleep 1000] @ polls (Suc a) n = polls a n"
  by (simp add: polls_def upt_conv_Cons)

lemma loop_trace:
  "get_packet_loop env rc e f tr = Some (r, e', f', tr') \<Longrightarrow> rc < US_MPP_H264_MAX_RETRY \<Longrightarrow>
   \<exists>n. rc < n \<and> n \<le> US_MPP_H264_MAX_RETRY \<and> tr' = tr @ polls rc n"
proof (induction env rc e f tr rule: get_packet_loop.induct)
  case (1 env rc e f tr)
  have single: "\<exists>n. rc < n \<and> n \<le> US_MPP_H264_MAX_RETRY \<and>
                 tr @ [EvGetPacket rc] = tr @ polls rc n"
    using "1.prems"(2) by (intro exI [of _ "Suc rc"]) (simp add: polls_single)
  show ?case
  proof (cases "fst (get_packet env rc) \<noteq> MPP_ERR_TIMEOUT \<and> fst (get_packet env rc) \<noteq> MPP_NOK
                \<and> snd (get_packet env rc) = None \<and> \<not> US_MPP_H264_MAX_RETRY \<le> rc + 1")
    case True
    then have rec: "get_packet_loop env (rc + 1) e f (tr @ [EvGetPacket rc, EvUsleep 1000])
                    = Some (r, e', f', tr')"
      using "1.prems"(1) by (subst (asm) get_packet_loop.simps) simp
    from True have lt: "rc + 1 < US_MPP_H264_MAX_RETRY" by simp
    from "1.IH" [OF _ _ _ _ rec lt] True
    obtain n where n: "rc + 1 < n" "n \<le> US_MPP_H264_MAX_RETRY"
      "tr' = (tr @ [EvGetPacket rc, EvUsleep 1000]) @ polls (rc + 1) n"
      by auto
    from n(1) have "[EvGetPacket rc, EvUsleep 1000] @ polls (Suc rc) n = polls rc n"
      by (intro polls_step) simp
    with n show ?thesis by (intro exI [of _ n]) auto
  next
    case False
    then show ?thesis
      using "1.prems"(1) single
      by (subst (asm) get_packet_loop.simps)
         (auto split: if_splits option.splits)
  qed
qed

lemma loop_exhaust:
  "rc < US_MPP_H264_MAX_RETRY \<Longrightarrow>
   \<forall>k. rc \<le> k \<and> k < US_MPP_H264_MAX_RETRY \<longrightarrow> get_packet env k = (MPP_OK, None) \<Longrightarrow>
   get_packet_loop env rc e f tr
     = Some (US_MPP_ERROR_TIMEOUT, e, f, tr @ polls rc US_MPP_H264_MAX_RETRY)"
proof (induction env rc e f tr rule: get_packet_loop.induct)
  case (1 env rc e f tr)
  have here: "get_packet env rc = (MPP_OK, None)"
    using "1.prems" by simp
  show ?case
  proof (cases "US_MPP_H264_MAX_RETRY \<le> rc + 1")
    case True
    with "1.prems"(1) have "US_MPP_H264_MAX_RETRY = Suc rc" by simp
    then have "polls rc US_MPP_H264_MAX_RETRY = [EvGetPacket rc]"
      using polls_single [of rc] by simp
    then show ?thesis
      using here True by (subst get_packet_loop.simps) simp
  next
    case False
    then have lt: "rc + 1 < US_MPP_H264_MAX_RETRY" by simp
    have rest: "\<forall>k. rc + 1 \<le> k \<and> k < US_MPP_H264_MAX_RETRY \<longrightarrow> get_packet env k = (MPP_OK, None)"
      using "1.prems"(2) by simp
    have "get_packet_loop env (rc + 1) e f (tr @ [EvGetPacket rc, EvUsleep 1000])
          = Some (US_MPP_ERROR_TIMEOUT, e, f,
                  (tr @ [EvGetPacket rc, EvUsleep 1000]) @ polls (rc + 1) US_MPP_H264_MAX_RETRY)"
      using "1.IH" [OF _ _ _ _ lt rest] here False by simp
    moreover have "[EvGetPacket rc, EvUsleep 1000] @ polls (Suc rc) US_MPP_H264_MAX_RETRY
                   = polls rc US_MPP_H264_MAX_RETRY"
      using lt by (intro polls_step) simp
    ultimately show ?thesis
      using here False by (subst get_packet_loop.simps) simp
  qed
qed

lemma polls_waits: "a \<le> k \<Longrightarrow> polls a (Suc k) = waits a k @ [EvGetPacket k]"
  by (simp add: polls_def waits_def)

lemma loop_skip:
  "rc \<le> k \<Longrightarrow> k < US_MPP_H264_MAX_RETRY \<Longrightarrow>
   \<forall>j. rc \<le> j \<and> j < k \<longrightarrow> get_packet env j = (MPP_OK, None) \<Longrightarrow>
   get_packet_loop env rc e f tr = get_packet_loop env k e f (tr @ waits rc k)"
proof (induction env rc e f tr rule: get_packet_loop.induct)
  case (1 env rc e f tr)
  show ?case
  proof (cases "rc = k")
    case True
    then show ?thesis by (simp add: waits_def)
  next
    case False
    with "1.prems" have lt: "rc < k" by simp
    then have here: "get_packet env rc = (MPP_OK, None)"
      using "1.prems" by simp
    have notlast: "\<not> US_MPP_H264_MAX_RETRY \<le> rc + 1"
      using lt "1.prems"(2) by simp
    have le: "rc + 1 \<le> k" using lt by simp
    have rest: "\<forall>j. rc + 1 \<le> j \<and> j < k \<longrightarrow> get_packet env j = (MPP_OK, None)"
      using "1.prems"(3) by simp
    have "get_packet_loop env (rc + 1) e f (tr @ [EvGetPacket rc, EvUsleep 1000])
          = get_packet_loop env k e f ((tr @ [EvGetPacket rc, EvUsleep 1000]) @ waits (rc + 1) k)"
      using "1.IH" [OF _ _ _ _ le "1.prems"(2) rest] here notlast by simp
    moreover have "[EvGetPacket rc, EvUsleep 1000] @ waits (Suc rc) k = waits rc k"
      using lt by (simp add: waits_def upt_conv_Cons)
    ultimately show ?thesis
      using here notlast by (subst get_packet_loop.simps) simp
  qed
qed

lemma loop_timeout:
  "fst (get_packet env k) = MPP_ERR_TIMEOUT \<Longrightarrow>
   get_packet_loop env k e f tr = Some (US_MPP_OK, e, f, tr @ [EvGetPacket k])"
  by (subst get_packet_loop.simps) simp

lemma loop_packet:
  "get_packet env k = (MPP_OK, Some p) \<Longrightarrow>
   get_packet_loop env k e f tr =
     (case us_mpp_h264_extract_output_packet e p f of
        None \<Rightarrow> None
      | Some (r, e', f') \<Rightarrow> Some (r, e', f', tr @ [EvGetPacket k]))"
  by (subst get_packet_loop.simps) simp

lemma realloc_data:
  "frame_wf f \<Longrightarrow> 0 < n \<Longrightarrow> allocated f = allocated g \<Longrightarrow> data f = data g \<Longrightarrow>
   \<exists>dst. data (us_frame_realloc_data g n) = Some dst \<and> n \<le> length dst"
  by (cases "data g") (auto simp: us_frame_realloc_data_def frame_wf_def frame_bytes_def)

lemma extract_ok:
  assumes "frame_wf f" "pkt_data p = Some bytes" "0 < pkt_length p" "pkt_length p \<le> length bytes"
  shows "\<exists>e' f'. us_mpp_h264_extract_output_packet e p f = Some (US_MPP_OK, e', f')
           \<and> format f' = V4L2_PIX_FMT_H264 \<and> stride f' = 0 \<and> used f' = pkt_length p
           \<and> width f' = proc_width e \<and> height f' = proc_height e
           \<and> take (pkt_length p) (frame_bytes f') = take (pkt_length p) bytes"
proof -
  let ?f1 = "f\<lparr>width := proc_width e, height := proc_height e,
                format := V4L2_PIX_FMT_H264, stride := 0, used := pkt_length p\<rparr>"
  obtain dst where dst: "data (us_frame_realloc_data ?f1 (pkt_length p)) = Some dst"
      "pkt_length p \<le> length dst"
    using realloc_data [OF assms(1) assms(3), of ?f1] by auto
  have meta: "format (us_frame_realloc_data ?f1 (pkt_length p)) = V4L2_PIX_FMT_H264"
     "stride (us_frame_realloc_data ?f1 (pkt_length p)) = 0"
     "used (us_frame_realloc_data ?f1 (pkt_length p)) = pkt_length p"
     "width (us_frame_realloc_data ?f1 (pkt_length p)) = proc_width e"
     "height (us_frame_realloc_data ?f1 (pkt_length p)) = proc_height e"
    by (simp_all add: us_frame_realloc_data_def)
  show ?thesis
    using assms dst meta
    by (auto simp: us_mpp_h264_extract_output_packet_def Let_def memcpy_def frame_bytes_def
             split: option.splits)
qed

lemma encode_reaches_loop:
  assumes "initialized enc" "\<not> should_stop enc" "format nv12 = V4L2_PIX_FMT_NV12"
    and "0 < used nv12" "data nv12 = Some bs" "used nv12 \<le> length bs"
    and "used nv12 \<le> length (frm_buf enc)" "put_frame_ret env = MPP_OK"
  shows "us_mpp_h264_encoder_encode env (Some enc) (Some nv12) (Some h264) fk =
           (case get_packet_loop env 0
                   (enc\<lparr>processing := True,
                        frm_buf := take (used nv12) bs @ drop (used nv12) (frm_buf enc)\<rparr>)
                   h264 [EvCopyInput (used nv12), EvPutFrame fk] of
              None \<Rightarrow> None
            | Some (result, e2, h264', tr') \<Rightarrow>
                Some (result, Some (encode_cleanup env result e2), Some h264', tr'))"
  using assms
  by (simp add: us_mpp_h264_encoder_encode_def us_mpp_is_format_supported_for_encode_def
                memcpy_def frame_bytes_def)

text \<open>
  C5. In an encode call that reaches the output-fetch loop: the loop polls
  \<^verbatim>\<open>encode_get_packet\<close> at least once and at most 30 times, with one sleep of 1000
  microseconds between two polls and none after the last; when all 30 polls come back
  empty the call returns Timeout and leaves the output frame alone; a timeout of the
  first poll ends the call with Ok and the output frame untouched; and a packet handed
  out by poll \<open>k\<close> after \<open>k\<close> empty polls is copied into the output frame (format H.264,
  \<open>used\<close> the packet's length) and the call returns Ok.
\<close>

theorem encode_fetch_loop:
  assumes "initialized enc" "\<not> should_stop enc" "format nv12 = V4L2_PIX_FMT_NV12"
    and "0 < used nv12" "data nv12 = Some bs" "used nv12 \<le> length bs"
    and "used nv12 \<le> length (frm_buf enc)" "put_frame_ret env = MPP_OK"
    and "frame_wf h264"
  shows "(\<forall>r e out tr.
            us_mpp_h264_encoder_encode env (Some enc) (Some nv12) (Some h264) fk
              = Some (r, e, out, tr) \<longrightarrow>
            (\<exists>n. 1 \<le> n \<and> n \<le> 30 \<and>
                 tr = [EvCopyInput (used nv12), EvPutFrame fk] @ polls 0 n))
       \<and> ((\<forall>k<30. get_packet env k = (MPP_OK, None)) \<longrightarrow>
            (\<exists>e. us_mpp_h264_encoder_encode env (Some enc) (Some nv12) (Some h264) fk
                  = Some (US_MPP_ERROR_TIMEOUT, Some e, Some h264,
                          [EvCopyInput (used nv12), EvPutFrame fk] @ polls 0 30)))
       \<and> (fst (get_packet env 0) = MPP_ERR_TIMEOUT \<longrightarrow>
            (\<exists>e. us_mpp_h264_encoder_encode env (Some enc) (Some nv12) (Some h264) fk
                  = Some (US_MPP_OK, Some e, Some h264,
                          [EvCopyInput (used nv12), EvPutFrame fk, EvGetPacket 0])))
       \<and> (\<forall>k p bytes.
            k < 30 \<and> (\<forall>j<k. get_packet env j = (MPP_OK, None)) \<and>
            get_packet env k = (MPP_OK, Some p) \<and> pkt_data p = Some bytes \<and>
            0 < pkt_length p \<and> pkt_length p \<le> length bytes \<longrightarrow>
            (\<exists>e out. us_mpp_h264_encoder_encode env (Some enc) (Some nv12) (Some h264) fk
                  = Some (US_MPP_OK, Some e, Some out,
                          [EvCopyInput (used nv12), EvPutFrame fk] @ polls 0 (Suc k))
               \<and> format out = V4L2_PIX_FMT_H264 \<and> used out = pkt_length p
               \<and> take (pkt_length p) (frame_bytes out) = take (pkt_length p) bytes))"
proof (intro conjI allI impI)
  note unfold = encode_reaches_loop [OF assms(1-8), of h264 fk]
  let ?e1 = "enc\<lparr>processing := True,
                  frm_buf := take (used nv12) bs @ drop (used nv12) (frm_buf enc)\<rparr>"
  let ?tr = "[EvCopyInput (used nv12), EvPutFrame fk]"
  {
    fix r e out tr
    assume run: "us_mpp_h264_encoder_encode env (Some enc) (Some nv12) (Some h264) fk
                 = Some (r, e, out, tr)"
    then obtain e2 h264' where "get_packet_loop env 0 ?e1 h264 ?tr = Some (r, e2, h264', tr)"
      unfolding unfold by (auto split: option.splits)
    from loop_trace [OF this] obtain n where
      "0 < n" "n \<le> US_MPP_H264_MAX_RETRY" "tr = ?tr @ polls 0 n"
      by (auto simp: US_MPP_H264_MAX_RETRY_def)
    then show "\<exists>n. 1 \<le> n \<and> n \<le> 30 \<and> tr = ?tr @ polls 0 n"
      by (intro exI [of _ n]) (simp add: US_MPP_H264_MAX_RETRY_def)
  }
  {
    assume "\<forall>k<30. get_packet env k = (MPP_OK, None)"
    then have "get_packet_loop env 0 ?e1 h264 ?tr
               = Some (US_MPP_ERROR_TIMEOUT, ?e1, h264, ?tr @ polls 0 US_MPP_H264_MAX_RETRY)"
      by (intro loop_exhaust) (simp_all add: US_MPP_H264_MAX_RETRY_def)
    then show "\<exists>e. us_mpp_h264_encoder_encode env (Some enc) (Some nv12) (Some h264) fk
                  = Some (US_MPP_ERROR_TIMEOUT, Some e, Some h264, ?tr @ polls 0 30)"
      unfolding unfold by (simp add: US_MPP_H264_MAX_RETRY_def)
  }
  {
    assume "fst (get_packet env 0) = MPP_ERR_TIMEOUT"
    from loop_timeout [OF this, of ?e1 h264 ?tr]
    show "\<exists>e. us_mpp_h264_encoder_encode env (Some enc) (Some nv12) (Some h264) fk
                  = Some (US_MPP_OK, Some e, Some h264,
                          [EvCopyInput (used nv12), EvPutFrame fk, EvGetPacket 0])"
      unfolding unfold by simp
  }
  {
    fix k p bytes
    assume h: "k < 30 \<and> (\<forall>j<k. get_packet env j = (MPP_OK, None)) \<and>
            get_packet env k = (MPP_OK, Some p) \<and> pkt_data p = Some bytes \<and>
            0 < pkt_length p \<and> pkt_length p \<le> length bytes"
    then have skip: "get_packet_loop env 0 ?e1 h264 ?tr
                     = get_packet_loop env k ?e1 h264 (?tr @ waits 0 k)"
      by (intro loop_skip) (simp_all add: US_MPP_H264_MAX_RETRY_def)
    from h obtain e' f' where
      ex: "us_mpp_h264_extract_output_packet ?e1 p h264 = Some (US_MPP_OK, e', f')"
      and f': "format f' = V4L2_PIX_FMT_H264" "used f' = pkt_length p"
        "take (pkt_length p) (frame_bytes f') = take (pkt_length p) bytes"
      using extract_ok [OF assms(9), of p bytes ?e1] by auto
    have "get_packet_loop env 0 ?e1 h264 ?tr
          = Some (US_MPP_OK, e', f', ?tr @ polls 0 (Suc k))"
      using h ex by (simp add: skip loop_packet polls_waits)
    then show "\<exists>e out. us_mpp_h264_encoder_encode env (Some enc) (Some nv12) (Some h264) fk
                  = Some (US_MPP_OK, Some e, Some out, ?tr @ polls 0 (Suc k))
               \<and> format out = V4L2_PIX_FMT_H264 \<and> used out = pkt_length p
               \<and> take (pkt_length p) (frame_bytes out) = take (pkt_length p) bytes"
      unfolding unfold using f' by simp
  }
qed

lemma cleanup_ok:
  "frames_processed (stats (encode_cleanup env US_MPP_OK e))
     = frames_processed (stats e) + 1
   \<and> consecutive_errors (encode_cleanup env US_MPP_OK e) = 0"
  by (simp add: encode_cleanup_def us_mpp_update_stats_def Let_def)

text \<open>
  The encoder's half of C2: an encode call that returns Ok has counted one frame and
  reset the consecutive-error counter.
\<close>

lemma encode_ok_counts_frame:
  assumes "us_mpp_h264_encoder_encode env (Some enc) nv12_frame h264_frame fk
             = Some (US_MPP_OK, Some e', out, tr)"
  shows "frames_processed (stats e') = frames_processed (stats enc) + 1
         \<and> consecutive_errors e' = 0"
  using assms
  by (auto simp: us_mpp_h264_encoder_encode_def Let_def cleanup_ok
           split: option.splits if_splits prod.splits dest!: loop_keeps)

theorem encode_fetch_loop_witness:
  "(\<exists>e. us_mpp_h264_encoder_encode (demo_enc_env (\<lambda>k. (MPP_OK, None)))
            (Some demo_encoder) (Some demo_nv12) (Some demo_out) False
          = Some (US_MPP_ERROR_TIMEOUT, Some e, Some demo_out,
                  [EvCopyInput 6144, EvPutFrame False] @ polls 0 30))
   \<and> (\<exists>e. us_mpp_h264_encoder_encode (demo_enc_env (\<lambda>k. (MPP_ERR_TIMEOUT, None)))
            (Some demo_encoder) (Some demo_nv12) (Some demo_out) False
          = Some (US_MPP_OK, Some e, Some demo_out,
                  [EvCopyInput 6144, EvPutFrame False, EvGetPacket 0]))
   \<and> (\<exists>e out. us_mpp_h264_encoder_encode
            (demo_enc_env (\<lambda>k. if k = 2 then (MPP_OK, Some demo_packet) else (MPP_OK, None)))
            (Some demo_encoder) (Some demo_nv12) (Some demo_out) False
          = Some (US_MPP_OK, Some e, Some out,
                  [EvCopyInput 6144, EvPutFrame False] @ polls 0 3)
        \<and> format out = V4L2_PIX_FMT_H264 \<and> used out = 5
        \<and> take 5 (frame_bytes out) = [0, 0, 0, 1, 0x65])"
proof -
  have pre: "initialized demo_encoder" "\<not> should_stop demo_encoder"
    "format demo_nv12 = V4L2_PIX_FMT_NV12" "0 < used demo_nv12"
    "data demo_nv12 = Some (replicate 6144 128)"
    "used demo_nv12 \<le> length (replicate 6144 (128 :: u8))"
    "used demo_nv12 \<le> length (frm_buf demo_encoder)"
    by (simp_all add: demo_encoder_def demo_nv12_def)
  have put: "put_frame_ret (demo_enc_env g) = MPP_OK" for g
    by (simp add: demo_enc_env_def)
  have wf: "frame_wf demo_out"
    by (simp add: frame_wf_def demo_out_def frame_bytes_def)
  note th = encode_fetch_loop [OF pre put wf]
  have u: "used demo_nv12 = 6144" by (simp add: demo_nv12_def)
  have a: "\<exists>e. us_mpp_h264_encoder_encode (demo_enc_env (\<lambda>k. (MPP_OK, None)))
            (Some demo_encoder) (Some demo_nv12) (Some demo_out) False
          = Some (US_MPP_ERROR_TIMEOUT, Some e, Some demo_out,
                  [EvCopyInput 6144, EvPutFrame False] @ polls 0 30)"
    using th [of "\<lambda>k. (MPP_OK, None)" False, THEN conjunct2, THEN conjunct1]
    by (simp add: demo_enc_env_def u)
  have b: "\<exists>e. us_mpp_h264_encoder_encode (demo_enc_env (\<lambda>k. (MPP_ERR_TIMEOUT, None)))
            (Some demo_encoder) (Some demo_nv12) (Some demo_out) False
          = Some (US_MPP_OK, Some e, Some demo_out,
                  [EvCopyInput 6144, EvPutFrame False, EvGetPacket 0])"
    using th [of "\<lambda>k. (MPP_ERR_TIMEOUT, None)" False,
              THEN conjunct2, THEN conjunct2, THEN conjunct1]
    by (simp add: demo_enc_env_def u)
  let ?g = "\<lambda>k::nat. if k = 2 then (MPP_OK, Some demo_packet) else (MPP_OK, None)"
  have c: "\<exists>e out. us_mpp_h264_encoder_encode (demo_enc_env ?g)
            (Some demo_encoder) (Some demo_nv12) (Some demo_out) False
          = Some (US_MPP_OK, Some e, Some out,
                  [EvCopyInput 6144, EvPutFrame False] @ polls 0 3)
        \<and> format out = V4L2_PIX_FMT_H264 \<and> used out = 5
        \<and> take 5 (frame_bytes out) = [0, 0, 0, 1, 0x65]"
    using th [of ?g False, THEN conjunct2, THEN conjunct2, THEN conjunct2,
              THEN spec, THEN spec, THEN spec, of 2 demo_packet "[0, 0, 0, 1, 0x65]"]
    by (simp add: demo_enc_env_def u demo_packet_def numeral_3_eq_3)
  from a b c show ?thesis by blast
qed

section \<open>The decoder\<close>

lemma submit_keeps:
  "decode_submit env d m = Some (r, d') \<Longrightarrow>
   stats d' = stats d \<and> consecutive_errors d' = consecutive_errors d"
  by (auto simp: decode_submit_def Let_def split: if_splits list.splits)

lemma info_change_keeps:
  "us_mpp_mjpeg_process_info_change env d rf = (r, d') \<Longrightarrow>
   stats d' = stats d \<and> consecutive_errors d' = consecutive_errors d"
  by (auto simp: us_mpp_mjpeg_process_info_change_def info_change_ready_def Let_def
           split: if_splits)

lemma receive_keeps:
  "decode_receive env d f = Some (r, d', f') \<Longrightarrow>
   stats d' = stats d \<and> consecutive_errors d' = consecutive_errors d"
  by (auto simp: decode_receive_def split: if_splits option.splits prod.splits
           dest: info_change_keeps)

lemma decode_keeps_stats:
  assumes "us_mpp_mjpeg_decoder_decode env (Some dec) mjpeg_frame nv12_frame
             = Some (r, Some d, out)"
  shows "stats d = stats dec \<and> consecutive_errors d = consecutive_errors dec"
  using assms
  by (auto simp: us_mpp_mjpeg_decoder_decode_def decode_cleanup_def
           split: option.splits if_splits prod.splits
           dest!: submit_keeps receive_keeps)

text \<open>
  C3, as the code has it. On an initialised, running decoder and an MJPEG or JPEG frame
  with a data pointer: an input shorter than 2 bytes is answered with InvalidParam, an
  input of at least 2 bytes that does not start with 0xFF 0xD8 with Decode; the
  destination frame is returned unchanged in both cases.
\<close>

theorem decode_rejects_bad_jpeg:
  assumes "initialized dec" "\<not> should_stop dec"
    and "us_mpp_is_format_supported_for_decode (format mjpeg)"
    and "data mjpeg = Some bs" "used mjpeg \<le> length bs"
  shows "(used mjpeg < 2 \<longrightarrow>
            (\<exists>d. us_mpp_mjpeg_decoder_decode env (Some dec) (Some mjpeg) (Some nv12)
                   = Some (US_MPP_ERROR_INVALID_PARAM, Some d, Some nv12)))
       \<and> (2 \<le> used mjpeg \<and> (bs ! 0 \<noteq> 0xFF \<or> bs ! 1 \<noteq> 0xD8) \<longrightarrow>
            (\<exists>d. us_mpp_mjpeg_decoder_decode env (Some dec) (Some mjpeg) (Some nv12)
                   = Some (US_MPP_ERROR_DECODE, Some d, Some nv12)))"
proof (intro conjI impI)
  assume "used mjpeg < 2"
  then show "\<exists>d. us_mpp_mjpeg_decoder_decode env (Some dec) (Some mjpeg) (Some nv12)
                   = Some (US_MPP_ERROR_INVALID_PARAM, Some d, Some nv12)"
    using assms by (simp add: us_mpp_mjpeg_decoder_decode_def decode_submit_def)
next
  assume h: "2 \<le> used mjpeg \<and> (bs ! 0 \<noteq> 0xFF \<or> bs ! 1 \<noteq> 0xD8)"
  with assms(5) obtain b0 b1 rest where bs: "bs = b0 # b1 # rest"
    by (cases bs; cases "tl bs") auto
  with h have "b0 \<noteq> 0xFF \<or> b1 \<noteq> 0xD8" by simp
  then show "\<exists>d. us_mpp_mjpeg_decoder_decode env (Some dec) (Some mjpeg) (Some nv12)
                   = Some (US_MPP_ERROR_DECODE, Some d, Some nv12)"
    using assms h bs
    by (auto simp: us_mpp_mjpeg_decoder_decode_def decode_submit_def frame_bytes_def)
qed

theorem decode_rejects_bad_jpeg_witness:
  "(\<exists>d. us_mpp_mjpeg_decoder_decode demo_dec_env (Some demo_decoder)
          (Some (demo_jpeg\<lparr>used := 1, allocated := 1, data := Some [0xFF]\<rparr>)) (Some demo_out)
         = Some (US_MPP_ERROR_INVALID_PARAM, Some d, Some demo_out))
   \<and> (\<exists>d. us_mpp_mjpeg_decoder_decode demo_dec_env (Some demo_decoder)
          (Some (demo_jpeg\<lparr>data := Some [0x89, 0x50, 0x4E, 0x47]\<rparr>)) (Some demo_out)
         = Some (US_MPP_ERROR_DECODE, Some d, Some demo_out))"
proof -
  have pre: "initialized demo_decoder" "\<not> should_stop demo_decoder"
    by (simp_all add: demo_decoder_def)
  have f: "us_mpp_is_format_supported_for_decode (format (demo_jpeg\<lparr>used := 1, allocated := 1, data := Some [0xFF]\<rparr>))"
     "us_mpp_is_format_supported_for_decode (format (demo_jpeg\<lparr>data := Some [0x89, 0x50, 0x4E, 0x47]\<rparr>))"
    by (simp_all add: demo_jpeg_def us_mpp_is_format_supported_for_decode_def)
  have a: "\<exists>d. us_mpp_mjpeg_decoder_decode demo_dec_env (Some demo_decoder)
          (Some (demo_jpeg\<lparr>used := 1, allocated := 1, data := Some [0xFF]\<rparr>)) (Some demo_out)
         = Some (US_MPP_ERROR_INVALID_PARAM, Some d, Some demo_out)"
    using decode_rejects_bad_jpeg [OF pre f(1), of "[0xFF]" demo_dec_env demo_out]
    by (simp add: demo_jpeg_def)
  have b: "\<exists>d. us_mpp_mjpeg_decoder_decode demo_dec_env (Some demo_decoder)
          (Some (demo_jpeg\<lparr>data := Some [0x89, 0x50, 0x4E, 0x47]\<rparr>)) (Some demo_out)
         = Some (US_MPP_ERROR_DECODE, Some d, Some demo_out)"
    using decode_rejects_bad_jpeg [OF pre f(2), of "[0x89, 0x50, 0x4E, 0x47]" demo_dec_env demo_out]
    by (simp add: demo_jpeg_def)
  from a b show ?thesis by blast
qed

text \<open>
  C3 as stated fails on a one-byte input: the call returns InvalidParam, not Decode.
\<close>

theorem short_jpeg_is_invalid_param:
  "us_mpp_mjpeg_decoder_decode demo_dec_env (Some demo_decoder)
      (Some (demo_jpeg\<lparr>used := 1, allocated := 1, data := Some [0xFF]\<rparr>)) (Some demo_out)
   = Some (US_MPP_ERROR_INVALID_PARAM,
           Some (demo_decoder\<lparr>processing := True, frame_number := 8\<rparr>), Some demo_out)"
  by (simp add: us_mpp_mjpeg_decoder_decode_def decode_submit_def decode_cleanup_def
        us_mpp_is_format_supported_for_decode_def demo_decoder_def demo_jpeg_def)

lemma nv12_total:
  fixes hs vs :: u32
  assumes "unat hs * unat vs * 3 div 2 < 2 ^ 32"
  shows "unat (hs * vs + (hs * vs) div 2) = unat hs * unat vs * 3 div 2"
proof -
  have lt: "unat hs * unat vs < 2 ^ 32" using assms by simp
  then have m: "unat (hs * vs) = unat hs * unat vs"
    using unat_mult_lem [of hs vs] by simp
  have d: "unat ((hs * vs) div 2) = unat hs * unat vs div 2"
    by (simp add: unat_div m)
  have "unat (hs * vs) + unat ((hs * vs) div 2) < 2 ^ 32"
    using assms unfolding m d by simp
  then have "unat (hs * vs + (hs * vs) div 2) = unat (hs * vs) + unat ((hs * vs) div 2)"
    using unat_add_lem [of "hs * vs" "(hs * vs) div 2"] by simp
  then show ?thesis unfolding m d by simp
qed

lemma half_again_pos: "0 < (y::nat) \<Longrightarrow> 0 < y * 3 div 2"
  by arith

lemma submit_passed:
  "decode_submit env d m = Some (None, d1) \<Longrightarrow> used m \<noteq> 0 \<and> data m \<noteq> None"
  by (auto simp: decode_submit_def Let_def split: if_splits list.splits)

lemma copy_frame_data_ok:
  assumes "mpp_frame_get_buffer rf = Some b" "mpp_buffer_get_ptr b = Some src"
    and "0 < mpp_buffer_get_size b"
    and "0 < unat (mpp_frame_get_hor_stride rf) * unat (mpp_frame_get_ver_stride rf)"
    and "unat (mpp_frame_get_hor_stride rf) * unat (mpp_frame_get_ver_stride rf) * 3 div 2
           < 2 ^ 32"
    and "unat (mpp_frame_get_hor_stride rf) * unat (mpp_frame_get_ver_stride rf) * 3 div 2
           \<le> length src"
    and "frame_wf nv12"
  shows "\<exists>out. us_mpp_mjpeg_copy_frame_data rf nv12 = Some (US_MPP_OK, out)
           \<and> format out = V4L2_PIX_FMT_NV12
           \<and> width out = mpp_frame_get_width rf \<and> height out = mpp_frame_get_height rf
           \<and> stride out = mpp_frame_get_hor_stride rf
           \<and> used out
               = unat (mpp_frame_get_hor_stride rf) * unat (mpp_frame_get_ver_stride rf) * 3 div 2
           \<and> take (used out) (frame_bytes out) = take (used out) src"
proof -
  let ?hs = "mpp_frame_get_hor_stride rf" and ?vs = "mpp_frame_get_ver_stride rf"
  let ?n = "unat ?hs * unat ?vs * 3 div 2"
  have total: "unat (?hs * ?vs + (?hs * ?vs) div 2) = ?n"
    by (rule nv12_total [OF assms(5)])
  have pos: "0 < ?n" using half_again_pos [OF assms(4)] .
  let ?f1 = "nv12\<lparr>width := mpp_frame_get_width rf, height := mpp_frame_get_height rf,
                  format := V4L2_PIX_FMT_NV12, stride := ?hs, used := ?n\<rparr>"
  obtain dst where dst: "data (us_frame_realloc_data ?f1 ?n) = Some dst" "?n \<le> length dst"
    using realloc_data [OF assms(7) pos, of ?f1] by auto
  have meta: "format (us_frame_realloc_data ?f1 ?n) = V4L2_PIX_FMT_NV12"
     "stride (us_frame_realloc_data ?f1 ?n) = ?hs"
     "used (us_frame_realloc_data ?f1 ?n) = ?n"
     "width (us_frame_realloc_data ?f1 ?n) = mpp_frame_get_width rf"
     "height (us_frame_realloc_data ?f1 ?n) = mpp_frame_get_height rf"
    by (simp_all add: us_frame_realloc_data_def)
  show ?thesis
    using assms(1-3,6) dst meta
    by (simp add: us_mpp_mjpeg_copy_frame_data_def Let_def total memcpy_def frame_bytes_def)
qed

text \<open>
  C4. When the packet was submitted and \<^verbatim>\<open>decode_get_frame\<close> hands back a valid frame
  (no info-change, no error or discard, no end-of-stream) that carries a buffer holding
  the payload, the call returns Ok and the destination frame has format NV12, stride
  \<open>hor_stride\<close>, \<open>used = hor_stride * ver_stride * 3 / 2\<close>, and that many bytes of the
  buffer (luma, then interleaved chroma) as its payload. The size is computed in 32 bits;
  the statement is for sizes that fit.
\<close>

theorem decode_valid_frame:
  assumes "initialized dec" "\<not> should_stop dec"
    and "us_mpp_is_format_supported_for_decode (format mjpeg)"
    and "decode_submit env (dec\<lparr>processing := True\<rparr>) mjpeg = Some (None, d1)"
    and "get_frame_ret env = MPP_OK" "returned_frame env = Some rf" "valid_frame rf"
    and "mpp_frame_get_buffer rf = Some b" "mpp_buffer_get_ptr b = Some src"
    and "0 < mpp_buffer_get_size b"
    and "0 < unat (mpp_frame_get_hor_stride rf) * unat (mpp_frame_get_ver_stride rf)"
    and "unat (mpp_frame_get_hor_stride rf) * unat (mpp_frame_get_ver_stride rf) * 3 div 2
           < 2 ^ 32"
    and "unat (mpp_frame_get_hor_stride rf) * unat (mpp_frame_get_ver_stride rf) * 3 div 2
           \<le> length src"
    and "frame_wf nv12"
  shows "\<exists>d out. us_mpp_mjpeg_decoder_decode env (Some dec) (Some mjpeg) (Some nv12)
                  = Some (US_MPP_OK, Some d, Some out)
           \<and> format out = V4L2_PIX_FMT_NV12
           \<and> stride out = mpp_frame_get_hor_stride rf
           \<and> used out
               = unat (mpp_frame_get_hor_stride rf) * unat (mpp_frame_get_ver_stride rf) * 3 div 2
           \<and> take (used out) (frame_bytes out) = take (used out) src"
proof -
  from copy_frame_data_ok [OF assms(8-14)] obtain out where
    out: "us_mpp_mjpeg_copy_frame_data rf nv12 = Some (US_MPP_OK, out)"
      "format out = V4L2_PIX_FMT_NV12" "stride out = mpp_frame_get_hor_stride rf"
      "used out
         = unat (mpp_frame_get_hor_stride rf) * unat (mpp_frame_get_ver_stride rf) * 3 div 2"
      "take (used out) (frame_bytes out) = take (used out) src"
    by blast
  have recv: "decode_receive env d1 nv12 = Some (US_MPP_OK, d1, out)"
    using assms(5-7) out(1) by (simp add: decode_receive_def valid_frame_def)
  have "us_mpp_mjpeg_decoder_decode env (Some dec) (Some mjpeg) (Some nv12)
          = Some (US_MPP_OK, Some (decode_cleanup d1), Some out)"
    using assms(1-4) submit_passed [OF assms(4)] recv
    by (simp add: us_mpp_mjpeg_decoder_decode_def)
  with out(2-5) show ?thesis by blast
qed

theorem decode_valid_frame_witness:
  "\<exists>d out. us_mpp_mjpeg_decoder_decode demo_dec_env (Some demo_decoder) (Some demo_jpeg)
              (Some demo_out) = Some (US_MPP_OK, Some d, Some out)
       \<and> format out = V4L2_PIX_FMT_NV12 \<and> stride out = 16 \<and> used out = 384
       \<and> take 384 (frame_bytes out) = replicate 384 128"
proof -
  have sub: "decode_submit demo_dec_env (demo_decoder\<lparr>processing := True\<rparr>) demo_jpeg
             = Some (None, demo_decoder\<lparr>processing := True, pkt_grp := True\<rparr>)"
    by (simp add: decode_submit_def demo_dec_env_def demo_decoder_def demo_jpeg_def
                  frame_bytes_def Let_def)
  have pre: "initialized demo_decoder" "\<not> should_stop demo_decoder"
      "us_mpp_is_format_supported_for_decode (format demo_jpeg)"
    by (simp_all add: demo_decoder_def demo_jpeg_def us_mpp_is_format_supported_for_decode_def)
  have env: "get_frame_ret demo_dec_env = MPP_OK" "returned_frame demo_dec_env = Some demo_mpp_frame"
    by (simp_all add: demo_dec_env_def)
  have fr: "valid_frame demo_mpp_frame"
    "mpp_frame_get_buffer demo_mpp_frame
       = Some \<lparr>mpp_buffer_get_ptr = Some (replicate 1024 128), mpp_buffer_get_size = 1024\<rparr>"
    by (simp_all add: valid_frame_def demo_mpp_frame_def)
  have hs: "mpp_frame_get_hor_stride demo_mpp_frame = 16"
     "mpp_frame_get_ver_stride demo_mpp_frame = 16"
    by (simp_all add: demo_mpp_frame_def)
  have wf: "frame_wf demo_out"
    by (simp add: frame_wf_def demo_out_def frame_bytes_def)
  show ?thesis
    using decode_valid_frame [OF pre sub env fr(1) fr(2), of "replicate 1024 128" demo_out] wf
    by (auto simp: hs)
qed

text \<open>
  C2 fails for the decoder: its \<^verbatim>\<open>cleanup:\<close> label never calls
  \<^verbatim>\<open>_us_mpp_update_stats\<close>. Evaluated on a decode that returns Ok, \<open>frames_processed\<close>
  is what it was before the call.
\<close>

theorem decode_ok_leaves_frames_processed:
  "(case us_mpp_mjpeg_decoder_decode demo_dec_env (Some demo_decoder) (Some demo_jpeg)
           (Some demo_out) of
      Some (r, Some d, out) \<Rightarrow>
        r = US_MPP_OK \<and> frames_processed (stats d) = frames_processed (stats demo_decoder)
    | _ \<Rightarrow> False)"
  by (simp add: us_mpp_mjpeg_decoder_decode_def decode_submit_def decode_receive_def
        us_mpp_mjpeg_copy_frame_data_def us_frame_realloc_data_def memcpy_def
        decode_cleanup_def us_mpp_is_format_supported_for_decode_def frame_bytes_def
        demo_dec_env_def demo_decoder_def demo_jpeg_def demo_out_def demo_mpp_frame_def
        Let_def)

section \<open>The I420 to NV12 converter\<close>

lemma upt2: "[0..<2] = [0, 1]" "[0..<1] = [0]"
  by (simp_all add: upt_rec)

text \<open>
  C1 fails on the code: the converter passes the destination's \<open>y_plane\<close> to libyuv as
  the source luma, so the source's Y bytes never reach the destination. Evaluated on the
  2x2 frame, the chroma is interleaved correctly (5, 6) and the luma is the four bytes
  the destination held before (9, 9, 9, 9), not the source's (1, 2, 3, 4).
\<close>

theorem i420_luma_not_copied:
  "us_mpp_convert_yuv420_to_nv12 (Some demo_i420) (Some demo_dst)
   = Some (US_MPP_OK,
           Some \<lparr>width = 2, height = 2, format = V4L2_PIX_FMT_NV12, stride = 0,
                 used = 6, allocated = 6, data = Some [9, 9, 9, 9, 5, 6]\<rparr>)"
  by (simp add: us_mpp_convert_yuv420_to_nv12_def us_mpp_calc_frame_size_by_format_def
        I420ToNV12_def CopyPlane_def MergeUVPlane_def copy_byte_def load_def store_def
        is_null_def region_bytes_def ptr_add_def demo_i420_def demo_dst_def Let_def
        fourcc_defs upt2)

section \<open>Display-mode selection\<close>

lemma interlaced_vdisplay [simp]: "interlaced (m\<lparr>vdisplay := v\<rparr>) = interlaced m"
  by (simp add: interlaced_def)

lemma refresh_rate_vdisplay [simp]:
  "get_refresh_rate fl (m\<lparr>vdisplay := v\<rparr>) = get_refresh_rate fl m"
  by (auto simp: get_refresh_rate_def refresh_mhz_def Let_def)

lemma candidate_ok_update:
  "candidate_ok fl modes c \<Longrightarrow> candidate_ok fl (modes[i := (modes ! i)\<lparr>vdisplay := v\<rparr>]) c"
  by (cases "i < length modes")
     (auto simp: candidate_ok_def nth_list_update split: option.splits)

lemma closest_step_cases:
  "closest_step fl w h hz modes mi closest = Some c' \<Longrightarrow> c' = closest \<or> c' = Some mi"
  by (auto simp: closest_step_def split: if_splits option.splits)

lemma closest_step_defined:
  "candidate_ok fl modes closest \<Longrightarrow> \<exists>c'. closest_step fl w h hz modes mi closest = Some c'"
  by (auto simp: closest_step_def candidate_ok_def split: option.splits)

lemma scan_candidates:
  "scan_modes fl w h hz modes mi best closest pref = Some (b, c, p, modes') \<Longrightarrow>
   candidate_ok fl modes best \<Longrightarrow> candidate_ok fl modes closest \<Longrightarrow>
   candidate_ok fl modes pref \<Longrightarrow>
   candidate_ok fl modes' b \<and> candidate_ok fl modes' c \<and> candidate_ok fl modes' p
   \<and> length modes' = length modes"
proof (induction fl w h hz modes mi best closest pref rule: scan_modes.induct)
  case (1 fl w h hz modes mi best closest pref)
  show ?case
  proof (cases "length modes \<le> mi")
    case True
    then show ?thesis using "1.prems" by (subst (asm) scan_modes.simps) simp
  next
    case False
    note inrange = this
    show ?thesis
    proof (cases "interlaced (modes ! mi)")
      case True
      then have "scan_modes fl w h hz modes (mi + 1) best closest pref = Some (b, c, p, modes')"
        using "1.prems"(1) inrange by (subst (asm) scan_modes.simps) simp
      from "1.IH"(1) [OF inrange True this "1.prems"(2-4)] show ?thesis .
    next
      case False
      note prog = this
      obtain mode_hz where rate: "get_refresh_rate fl (modes ! mi) = Some mode_hz"
        using "1.prems"(1) inrange prog
        by (subst (asm) scan_modes.simps) (auto split: option.splits)
      from inrange prog rate have ok: "candidate_ok fl modes (Some mi)"
        by (simp add: candidate_ok_def)
      show ?thesis
      proof (cases "scan_passes fl w h hz (modes ! mi)")
        case False
        then show ?thesis
          using "1.prems" inrange prog ok rate
          by (subst (asm) scan_modes.simps)
             (auto simp: scan_passes_def candidate_ok_update split: if_splits)
      next
        case True
        then have n1: "\<not> (w = 640 \<and> h = 416 \<and> hdisplay (modes ! mi) = 640
                     \<and> vdisplay (modes ! mi) = 480 \<and> 0 < hz \<and> mode_hz < hz)"
          and n2: "\<not> (ucast (hdisplay (modes ! mi)) = w \<and> ucast (vdisplay (modes ! mi)) = h
                     \<and> 0 < hz \<and> mode_hz = hz)"
          using rate by (auto simp: scan_passes_def)
        obtain c' where cs: "closest_step fl w h hz modes mi closest = Some c'"
          using closest_step_defined [OF "1.prems"(3)] by blast
        let ?best = "if ucast (hdisplay (modes ! mi)) = w \<and> ucast (vdisplay (modes ! mi)) = h
                     then Some mi else best"
        let ?pref = "if pref = None \<and> mode_type (modes ! mi) AND DRM_MODE_TYPE_PREFERRED \<noteq> 0
           then Some mi else pref"
        have rec: "scan_modes fl w h hz modes (mi + 1) ?best c' ?pref = Some (b, c, p, modes')"
          using "1.prems"(1) inrange prog n1 n2
          by (subst (asm) scan_modes.simps) (simp only: if_False if_True rate cs option.case)
        have okc: "candidate_ok fl modes c'"
          using closest_step_cases [OF cs] ok "1.prems"(3) by auto
        have oks: "candidate_ok fl modes ?best" "candidate_ok fl modes ?pref"
          using ok "1.prems"(2,4) by simp_all
        from "1.IH"(2) [OF inrange prog rate n1 n2 cs rec oks(1) okc oks(2)] show ?thesis .
      qed
    qed
  qed
qed

lemma scan_reaches:
  "mi \<le> k \<Longrightarrow> k \<le> length modes \<Longrightarrow>
   \<forall>j. mi \<le> j \<and> j < k \<longrightarrow> interlaced (modes ! j) \<or> scan_passes fl w h hz (modes ! j) \<Longrightarrow>
   candidate_ok fl modes closest \<Longrightarrow>
   \<exists>b c p. scan_modes fl w h hz modes mi best closest pref
            = scan_modes fl w h hz modes k b c p"
proof (induction fl w h hz modes mi best closest pref rule: scan_modes.induct)
  case (1 fl w h hz modes mi best closest pref)
  show ?case
  proof (cases "mi = k")
    case True
    then show ?thesis by blast
  next
    case False
    with "1.prems" have lt: "mi < k" by simp
    then have inrange: "\<not> length modes \<le> mi" using "1.prems"(2) by simp
    have le: "mi + 1 \<le> k" using lt by simp
    have rest: "\<forall>j. mi + 1 \<le> j \<and> j < k \<longrightarrow>
                  interlaced (modes ! j) \<or> scan_passes fl w h hz (modes ! j)"
      using "1.prems"(3) by simp
    show ?thesis
    proof (cases "interlaced (modes ! mi)")
      case True
      from "1.IH"(1) [OF inrange True le "1.prems"(2) rest "1.prems"(4)]
      obtain b c p where "scan_modes fl w h hz modes (mi + 1) best closest pref
                          = scan_modes fl w h hz modes k b c p" by blast
      then have "scan_modes fl w h hz modes mi best closest pref
                 = scan_modes fl w h hz modes k b c p"
        using inrange True by (subst scan_modes.simps) simp
      then show ?thesis by blast
    next
      case False
      then have pass: "scan_passes fl w h hz (modes ! mi)"
        using "1.prems"(3) lt by auto
      then obtain mode_hz where rate: "get_refresh_rate fl (modes ! mi) = Some mode_hz"
        by (auto simp: scan_passes_def split: option.splits)
      from pass rate
      have n1: "\<not> (w = 640 \<and> h = 416 \<and> hdisplay (modes ! mi) = 640
                     \<and> vdisplay (modes ! mi) = 480 \<and> 0 < hz \<and> mode_hz < hz)"
        and n2: "\<not> (ucast (hdisplay (modes ! mi)) = w \<and> ucast (vdisplay (modes ! mi)) = h
                     \<and> 0 < hz \<and> mode_hz = hz)"
        by (auto simp: scan_passes_def)
      obtain c' where cs: "closest_step fl w h hz modes mi closest = Some c'"
        using closest_step_defined [OF "1.prems"(4)] by blast
      have "candidate_ok fl modes (Some mi)"
        using inrange False rate by (simp add: candidate_ok_def)
      then have okc: "candidate_ok fl modes c'"
        using closest_step_cases [OF cs] "1.prems"(4) by auto
      let ?best = "if ucast (hdisplay (modes ! mi)) = w \<and> ucast (vdisplay (modes ! mi)) = h
                   then Some mi else best"
      let ?pref = "if pref = None \<and> mode_type (modes ! mi) AND DRM_MODE_TYPE_PREFERRED \<noteq> 0
           then Some mi else pref"
      from "1.IH"(2) [OF inrange False rate n1 n2 cs le "1.prems"(2) rest okc]
      obtain b c p where r: "scan_modes fl w h hz modes (mi + 1) ?best c' ?pref
                          = scan_modes fl w h hz modes k b c p" by blast
      have "scan_modes fl w h hz modes mi best closest pref
            = scan_modes fl w h hz modes (mi + 1) ?best c' ?pref"
        using inrange False n1 n2
        by (subst scan_modes.simps) (simp only: if_False if_True rate cs option.case)
      with r show ?thesis by metis
    qed
  qed
qed

text \<open>
  C9, as the code has it.

  \<^item> For a requested 640x416 source with a positive refresh rate \<open>hz\<close>: the first mode of
    the connector that is not interlaced, is 640x480 and has a refresh rate below \<open>hz\<close>
    is selected, with its \<open>vdisplay\<close> set to 416, provided the scan gets that far (every
    earlier mode is interlaced, or has a refresh rate the code can compute and does not
    end the scan).
  \<^item> For every connector and every request: when the scan finds a candidate (exact,
    closest or preferred), the selected mode is not interlaced.
\<close>

theorem find_best_mode_640x416:
  "(k < length modes \<and> \<not> interlaced (modes ! k)
      \<and> hdisplay (modes ! k) = 640 \<and> vdisplay (modes ! k) = 480 \<and> 0 < hz
      \<and> (\<exists>mode_hz. get_refresh_rate fl (modes ! k) = Some mode_hz \<and> mode_hz < hz)
      \<and> (\<forall>j<k. interlaced (modes ! j) \<or> scan_passes fl 640 416 hz (modes ! j))
    \<longrightarrow> find_best_mode fl modes 640 416 hz
          = Some (Some k, modes[k := (modes ! k)\<lparr>vdisplay := 416\<rparr>]))
   \<and> (\<forall>fl' ms w h hz' b c p ms' i ms''.
         scan_modes fl' w h hz' ms 0 None None None = Some (b, c, p, ms') \<and>
         (b \<noteq> None \<or> c \<noteq> None \<or> p \<noteq> None) \<and>
         find_best_mode fl' ms w h hz' = Some (Some i, ms'') \<longrightarrow>
         ms'' = ms' \<and> i < length ms'' \<and> \<not> interlaced (ms'' ! i))"
proof (rule conjI)
  show "k < length modes \<and> \<not> interlaced (modes ! k)
      \<and> hdisplay (modes ! k) = 640 \<and> vdisplay (modes ! k) = 480 \<and> 0 < hz
      \<and> (\<exists>mode_hz. get_refresh_rate fl (modes ! k) = Some mode_hz \<and> mode_hz < hz)
      \<and> (\<forall>j<k. interlaced (modes ! j) \<or> scan_passes fl 640 416 hz (modes ! j))
    \<longrightarrow> find_best_mode fl modes 640 416 hz
          = Some (Some k, modes[k := (modes ! k)\<lparr>vdisplay := 416\<rparr>])"
  proof
    assume a: "k < length modes \<and> \<not> interlaced (modes ! k)
      \<and> hdisplay (modes ! k) = 640 \<and> vdisplay (modes ! k) = 480 \<and> 0 < hz
      \<and> (\<exists>mode_hz. get_refresh_rate fl (modes ! k) = Some mode_hz \<and> mode_hz < hz)
      \<and> (\<forall>j<k. interlaced (modes ! j) \<or> scan_passes fl 640 416 hz (modes ! j))"
    then obtain mode_hz where
      k: "k < length modes" "\<not> interlaced (modes ! k)" "hdisplay (modes ! k) = 640"
         "vdisplay (modes ! k) = 480" "0 < hz"
      and rate: "get_refresh_rate fl (modes ! k) = Some mode_hz" "mode_hz < hz"
      and before: "\<forall>j<k. interlaced (modes ! j) \<or> scan_passes fl 640 416 hz (modes ! j)"
      by blast
    have "\<exists>b c p. scan_modes fl 640 416 hz modes 0 None None None
                   = scan_modes fl 640 416 hz modes k b c p"
      using k(1) before by (intro scan_reaches) (auto simp: candidate_ok_def)
    then obtain b c p where
      "scan_modes fl 640 416 hz modes 0 None None None
       = scan_modes fl 640 416 hz modes k b c p"
      by blast
    also have "\<dots> = Some (Some k, c, p, modes[k := (modes ! k)\<lparr>vdisplay := 416\<rparr>])"
      using k rate by (subst scan_modes.simps) simp
    finally show "find_best_mode fl modes 640 416 hz
                  = Some (Some k, modes[k := (modes ! k)\<lparr>vdisplay := 416\<rparr>])"
      using k(1,3) by (simp add: find_best_mode_def)
  qed
next
  show "\<forall>fl' ms w h hz' b c p ms' i ms''.
          scan_modes fl' w h hz' ms 0 None None None = Some (b, c, p, ms') \<and>
          (b \<noteq> None \<or> c \<noteq> None \<or> p \<noteq> None) \<and>
          find_best_mode fl' ms w h hz' = Some (Some i, ms'') \<longrightarrow>
          ms'' = ms' \<and> i < length ms'' \<and> \<not> interlaced (ms'' ! i)"
  proof (intro allI impI)
    fix fl' ms w h hz' b c p ms' i ms''
    assume h: "scan_modes fl' w h hz' ms 0 None None None = Some (b, c, p, ms') \<and>
          (b \<noteq> None \<or> c \<noteq> None \<or> p \<noteq> None) \<and>
          find_best_mode fl' ms w h hz' = Some (Some i, ms'')"
    then have ok: "candidate_ok fl' ms' b" "candidate_ok fl' ms' c" "candidate_ok fl' ms' p"
      using scan_candidates [of fl' w h hz' ms 0 None None None b c p ms']
      by (simp_all add: candidate_ok_def)
    from h have "ms'' = ms' \<and> (b = Some i \<or> c = Some i \<or> p = Some i)"
      by (auto simp: find_best_mode_def Let_def split: if_splits option.splits)
    with ok show "ms'' = ms' \<and> i < length ms'' \<and> \<not> interlaced (ms'' ! i)"
      by (auto simp: candidate_ok_def)
  qed
qed

theorem find_best_mode_640x416_witness:
  "find_best_mode float_div_1000 [hd_1080i, vga_640x480] 640 416 60
     = Some (Some 1, [hd_1080i, vga_640x480\<lparr>vdisplay := 416\<rparr>])
   \<and> find_best_mode float_div_1000 [hd_1080i, hd_720p] 1280 720 60
     = Some (Some 1, [hd_1080i, hd_720p])
   \<and> scan_modes float_div_1000 1280 720 60 [hd_1080i, hd_720p] 0 None None None
     = Some (Some 1, None, None, [hd_1080i, hd_720p])
   \<and> \<not> interlaced ([hd_1080i, hd_720p] ! 1)"
proof -
  have r: "get_refresh_rate float_div_1000 vga_640x480 = Some (5994 / 100)"
    by (simp add: get_refresh_rate_def refresh_mhz_def to_int32_def float_div_1000_def
          interlaced_def vga_640x480_def DRM_MODE_FLAG_INTERLACE_def
          DRM_MODE_FLAG_DBLSCAN_def Let_def)
  have r2: "get_refresh_rate float_div_1000 hd_720p = Some 60"
    by (simp add: get_refresh_rate_def refresh_mhz_def to_int32_def float_div_1000_def
          interlaced_def hd_720p_def DRM_MODE_FLAG_INTERLACE_def
          DRM_MODE_FLAG_DBLSCAN_def Let_def)
  have i: "interlaced hd_1080i" "\<not> interlaced vga_640x480" "\<not> interlaced hd_720p"
    by (simp_all add: interlaced_def hd_1080i_def vga_640x480_def hd_720p_def
          DRM_MODE_FLAG_INTERLACE_def)
  have d: "hdisplay vga_640x480 = 640" "vdisplay vga_640x480 = 480"
    "hdisplay hd_720p = 1280" "vdisplay hd_720p = 720"
    by (simp_all add: vga_640x480_def hd_720p_def)
  have "(5994 / 100 :: real) < 60" by simp
  with r have "get_refresh_rate float_div_1000 ([hd_1080i, vga_640x480] ! 1)
               = Some (5994 / 100) \<and> (5994 / 100 :: real) < 60"
    by (simp only: nth_Cons_Suc nth_Cons_0 One_nat_def simp_thms)
  then have "\<exists>mode_hz. get_refresh_rate float_div_1000 ([hd_1080i, vga_640x480] ! 1)
                    = Some mode_hz \<and> mode_hz < 60"
    by (rule exI)
  moreover have "\<forall>j<1. interlaced ([hd_1080i, vga_640x480] ! j)
            \<or> scan_passes float_div_1000 640 416 60 ([hd_1080i, vga_640x480] ! j)"
    using i by simp
  ultimately have p: "1 < length [hd_1080i, vga_640x480]
      \<and> \<not> interlaced ([hd_1080i, vga_640x480] ! 1)
      \<and> hdisplay ([hd_1080i, vga_640x480] ! 1) = 640
      \<and> vdisplay ([hd_1080i, vga_640x480] ! 1) = 480 \<and> (0::real) < 60
      \<and> (\<exists>mode_hz. get_refresh_rate float_div_1000 ([hd_1080i, vga_640x480] ! 1)
                      = Some mode_hz \<and> mode_hz < 60)
      \<and> (\<forall>j<1. interlaced ([hd_1080i, vga_640x480] ! j)
            \<or> scan_passes float_div_1000 640 416 60 ([hd_1080i, vga_640x480] ! j))"
    using i d by simp
  have a: "find_best_mode float_div_1000 [hd_1080i, vga_640x480] 640 416 60
           = Some (Some 1, [hd_1080i, vga_640x480\<lparr>vdisplay := 416\<rparr>])"
    using find_best_mode_640x416 [of 1 "[hd_1080i, vga_640x480]" 60 float_div_1000,
                                  THEN conjunct1, THEN mp, OF p]
    by simp
  have s: "scan_modes float_div_1000 1280 720 60 [hd_1080i, hd_720p] 0 None None None
           = Some (Some 1, None, None, [hd_1080i, hd_720p])"
    using r2 i d by (simp add: scan_modes.simps)
  have f: "find_best_mode float_div_1000 [hd_1080i, hd_720p] 1280 720 60
           = Some (Some 1, [hd_1080i, hd_720p])"
    using s d by (simp add: find_best_mode_def)
  have "Some (1::nat) \<noteq> None \<or> (None :: nat option) \<noteq> None \<or> (None :: nat option) \<noteq> None"
    by simp
  from find_best_mode_640x416 [of 1 "[hd_1080i, vga_640x480]" 60 float_div_1000,
         THEN conjunct2, rule_format, OF conjI [OF s conjI [OF this f]]]
  have "\<not> interlaced ([hd_1080i, hd_720p] ! 1)" by blast
  with a s f show ?thesis by blast
qed

text \<open>
  C9 as stated fails: a 640x416 request whose refresh rate is unknown (\<open>hz = 0\<close>) gets
  the connector's 640x480 mode as it is, \<open>vdisplay\<close> still 480.
\<close>

theorem find_best_mode_640x416_unknown_rate:
  "find_best_mode float_div_1000 [vga_640x480] 640 416 0 = Some (Some 0, [vga_640x480])
   \<and> vdisplay vga_640x480 = 480"
  by (simp add: find_best_mode_def scan_modes.simps closest_step_def
      get_refresh_rate_def refresh_mhz_def to_int32_def float_div_1000_def Let_def
      interlaced_def vga_640x480_def
      DRM_MODE_FLAG_INTERLACE_def DRM_MODE_FLAG_DBLSCAN_def DRM_MODE_TYPE_PREFERRED_def)

text \<open>
  The last fallback takes the first mode of the array without the interlace test: a
  connector that offers only 1080i gets it selected.
\<close>

lemma fallback_takes_first_mode:
  "find_best_mode float_div_1000 [hd_1080i] 1280 720 60 = Some (Some 0, [hd_1080i])
   \<and> interlaced hd_1080i"
  by (simp add: find_best_mode_def scan_modes.simps interlaced_def hd_1080i_def
      DRM_MODE_FLAG_INTERLACE_def DRM_MODE_TYPE_PREFERRED_def)

text \<open>
  A mode with a zero total makes \<^verbatim>\<open>_get_refresh_rate\<close> divide by zero, and with it every
  selection whose scan reaches the mode. The two divisions of \<^verbatim>\<open>mhz\<close> truncate.
\<close>

lemma zero_total_is_undefined:
  "htotal mode = 0 \<or> vtotal mode = 0 \<Longrightarrow> get_refresh_rate fl mode = None"
  by (simp add: get_refresh_rate_def refresh_mhz_def)

lemma scan_of_zero_total_is_undefined:
  "find_best_mode fl [vga_640x480\<lparr>vtotal := 0\<rparr>] w h hz = None"
  by (simp add: find_best_mode_def scan_modes.simps get_refresh_rate_def refresh_mhz_def
      interlaced_def vga_640x480_def DRM_MODE_FLAG_INTERLACE_def)

lemma c_div_truncates: "c_div (- 7) 2 = - 3" "c_div 7 2 = 3" "c_div (- 7) 3 = - 2"
  by (simp_all add: c_div_def)

section \<open>Centering and the RGB24 display converter\<close>

lemma wrap32_id: "n < 2 ^ 32 \<Longrightarrow> wrap32 n = n"
  by (simp add: wrap32_def)

lemma write_bytes_frame:
  "i + length vs \<le> length bs \<Longrightarrow>
   \<exists>bs'. write_bytes bs i vs = Some bs' \<and> length bs' = length bs
         \<and> (\<forall>j. j < i \<or> i + length vs \<le> j \<longrightarrow> bs' ! j = bs ! j)"
proof (induction vs arbitrary: bs i)
  case Nil
  then show ?case by simp
next
  case (Cons v vs)
  then have "i + 1 + length vs \<le> length (bs[i := v])" by simp
  from Cons.IH [OF this] obtain bs' where
    bs': "write_bytes (bs[i := v]) (i + 1) vs = Some bs'" "length bs' = length bs"
      "\<forall>j. j < i + 1 \<or> i + 1 + length vs \<le> j \<longrightarrow> bs' ! j = (bs[i := v]) ! j"
    by auto
  have "\<forall>j. j < i \<or> i + length (v # vs) \<le> j \<longrightarrow> bs' ! j = bs ! j"
    using bs'(3) by auto
  with bs'(1,2) Cons.prems show ?case by simp
qed

lemma rgb24_pixels_frame:
  assumes "src_width center = src_w" "offset_x center + src_w \<le> dst_w" "dst_w * 4 < 2 ^ 32"
    and "src_row + src_w * 3 \<le> length src" "dst_row + src_w * 4 \<le> length dst"
    and "x \<le> src_w"
  shows "\<exists>dst'. rgb24_pixels src src_row src_w center dst_w 4 (wrap32 (src_w * 3)) dst_row x dst
                 = Some dst'
           \<and> length dst' = length dst
           \<and> (\<forall>j. dst' ! j \<noteq> dst ! j \<longrightarrow> dst_row + x * 4 \<le> j \<and> j < dst_row + src_w * 4)"
  using assms(5,6)
proof (induction "src_w - x" arbitrary: x dst)
  case 0
  then have "x = src_w" by simp
  then show ?case by (subst rgb24_pixels.simps) simp
next
  case (Suc n)
  then have lt: "x < src_w" by simp
  have w32: "src_w * 3 < 2 ^ 32" "src_w * 4 < 2 ^ 32"
    using assms(2,3) by simp_all
  have x3: "wrap32 (x * 3) = x * 3" "wrap32 (x * 3 + 2) = x * 3 + 2" "wrap32 (x * 3 + 1) = x * 3 + 1"
    "wrap32 (x * 4) = x * 4" "wrap32 (src_w * 3) = src_w * 3"
    using lt w32 by (simp_all add: wrap32_id)
  have xo: "wrap32 (x + offset_x center) < dst_w"
    using lt assms(2,3) by (simp add: wrap32_id)
  have rd: "read_byte src (src_row + x * 3) = Some (src ! (src_row + x * 3))"
    "read_byte src (src_row + (x * 3 + 1)) = Some (src ! (src_row + (x * 3 + 1)))"
    "read_byte src (src_row + (x * 3 + 2)) = Some (src ! (src_row + (x * 3 + 2)))"
    using lt assms(4) by (simp_all add: read_byte_def)
  let ?px = "[src ! (src_row + (x * 3 + 2)), src ! (src_row + (x * 3 + 1)),
              src ! (src_row + x * 3), 0xFF]"
  have "dst_row + x * 4 + length ?px \<le> length dst"
    using lt Suc.prems(1) by simp
  from write_bytes_frame [OF this] obtain d1 where
    d1: "write_bytes dst (dst_row + x * 4) ?px = Some d1" "length d1 = length dst"
      "\<forall>j. j < dst_row + x * 4 \<or> dst_row + x * 4 + 4 \<le> j \<longrightarrow> d1 ! j = dst ! j"
    by auto
  have n: "n = src_w - (x + 1)" using Suc.hyps(2) by simp
  have p1: "dst_row + src_w * 4 \<le> length d1" using Suc.prems(1) d1(2) by simp
  have p2: "x + 1 \<le> src_w" using lt by simp
  from Suc.hyps(1) [OF n p1 p2] obtain d2 where
    d2: "rgb24_pixels src src_row src_w center dst_w 4 (wrap32 (src_w * 3)) dst_row (x + 1) d1
         = Some d2" "length d2 = length d1"
      "\<forall>j. d2 ! j \<noteq> d1 ! j \<longrightarrow> dst_row + (x + 1) * 4 \<le> j \<and> j < dst_row + src_w * 4"
    by auto
  have step: "rgb24_pixels src src_row src_w center dst_w 4 (wrap32 (src_w * 3)) dst_row x dst
              = Some d2"
    using lt assms(1) xo x3 rd d1(1) d2(1)
    by (subst rgb24_pixels.simps) simp
  have "\<forall>j. d2 ! j \<noteq> dst ! j \<longrightarrow> dst_row + x * 4 \<le> j \<and> j < dst_row + src_w * 4"
  proof (intro allI impI)
    fix j assume ne: "d2 ! j \<noteq> dst ! j"
    show "dst_row + x * 4 \<le> j \<and> j < dst_row + src_w * 4"
    proof (cases "d2 ! j = d1 ! j")
      case True
      with ne have "d1 ! j \<noteq> dst ! j" by simp
      with d1(3) have "\<not> (j < dst_row + x * 4 \<or> dst_row + x * 4 + 4 \<le> j)" by blast
      with lt show ?thesis by simp
    next
      case False
      with d2(3) have "dst_row + (x + 1) * 4 \<le> j \<and> j < dst_row + src_w * 4" by blast
      then show ?thesis by simp
    qed
  qed
  with step d2(2) d1(2) show ?case by simp
qed

lemma rgb24_rows_frame:
  assumes "src_width center = src_w" "src_height center = src_h"
    and "offset_x center + src_w \<le> dst_w" "offset_y center + src_h \<le> dst_h"
    and "dst_w < 2 ^ 32" "dst_h < 2 ^ 32" "dst_w * 4 * dst_h < 2 ^ 32"
    and "src_w * 3 * src_h \<le> length src"
    and "dst_w * 4 * dst_h \<le> length dst" "y \<le> src_h"
  shows "\<exists>dst'. rgb24_rows src src_w src_h center (dst_w * 4) 4 dst_w dst_h y dst = Some dst'
           \<and> length dst' = length dst
           \<and> (\<forall>j. dst' ! j \<noteq> dst ! j \<longrightarrow>
                  (\<exists>y' x k. y \<le> y' \<and> y' < src_h \<and> x < src_w \<and> k < 4 \<and>
                     j = (offset_y center + y') * (dst_w * 4)
                         + (offset_x center + x) * 4 + k))"
  using assms(9,10)
proof (induction "src_h - y" arbitrary: y dst)
  case 0
  then have "y = src_h" by simp
  then show ?case by (subst rgb24_rows.simps) simp
next
  case (Suc n)
  let ?S = "dst_w * 4" and ?ox = "offset_x center" and ?oy = "offset_y center"
  from Suc have lt: "y < src_h" by simp
  then have row: "y + ?oy + 1 \<le> dst_h" using assms(4) by simp
  then have h1: "1 \<le> dst_h" by simp
  have a7: "dst_h * ?S < 2 ^ 32" using assms(7) by (simp add: mult.commute)
  have S32: "?S < 2 ^ 32"
  proof -
    have "1 * ?S \<le> dst_h * ?S" by (rule mult_le_mono1) (rule h1)
    also have "\<dots> < 2 ^ 32" by (rule a7)
    finally show ?thesis by simp
  qed
  have rows_le: "(y + ?oy + 1) * ?S \<le> dst_h * ?S"
    by (rule mult_le_mono1) (rule row)
  have rows32: "(y + ?oy) * ?S < 2 ^ 32"
  proof -
    have "(y + ?oy) * ?S \<le> (y + ?oy + 1) * ?S" by (rule mult_le_mono1) simp
    also have "\<dots> \<le> dst_h * ?S" by (rule rows_le)
    also have "\<dots> < 2 ^ 32" by (rule a7)
    finally show ?thesis .
  qed
  have w3: "src_w * 3 \<le> ?S" using assms(3) by simp
  have src_le: "(y + 1) * (src_w * 3) \<le> src_h * (src_w * 3)"
    by (rule mult_le_mono1) (use lt in simp)
  have src32: "y * (src_w * 3) < 2 ^ 32"
  proof -
    have "y \<le> dst_h" using lt assms(4) by simp
    then have "y * (src_w * 3) \<le> dst_h * ?S" using w3 by (rule mult_le_mono)
    also have "\<dots> < 2 ^ 32" by (rule a7)
    finally show ?thesis .
  qed
  have u: "wrap32 (src_w * 3) = src_w * 3" "wrap32 (y * (src_w * 3)) = y * (src_w * 3)"
    "wrap32 (y + ?oy) = y + ?oy" "wrap32 ((y + ?oy) * ?S) = (y + ?oy) * ?S"
    "wrap32 (?ox * 4) = ?ox * 4"
  proof -
    show "wrap32 (src_w * 3) = src_w * 3" using w3 S32 by (intro wrap32_id) simp
    show "wrap32 (y * (src_w * 3)) = y * (src_w * 3)" using src32 by (rule wrap32_id)
    show "wrap32 (y + ?oy) = y + ?oy" using row assms(6) by (intro wrap32_id) simp
    show "wrap32 ((y + ?oy) * ?S) = (y + ?oy) * ?S" using rows32 by (rule wrap32_id)
    show "wrap32 (?ox * 4) = ?ox * 4" using assms(3) S32 by (intro wrap32_id) simp
  qed
  let ?dst_row = "(y + ?oy) * ?S + ?ox * 4"
  have in_src: "y * (src_w * 3) + src_w * 3 \<le> length src"
  proof -
    have "y * (src_w * 3) + src_w * 3 = (y + 1) * (src_w * 3)" by simp
    also have "\<dots> \<le> src_h * (src_w * 3)" by (rule src_le)
    also have "\<dots> = src_w * 3 * src_h" by (simp add: mult.commute)
    also have "\<dots> \<le> length src" by (rule assms(8))
    finally show ?thesis .
  qed
  have in_dst: "?dst_row + src_w * 4 \<le> length dst"
  proof -
    have "?ox * 4 + src_w * 4 \<le> ?S" using assms(3) by simp
    then have "?dst_row + src_w * 4 \<le> (y + ?oy) * ?S + ?S" by simp
    also have "\<dots> = (y + ?oy + 1) * ?S" by simp
    also have "\<dots> \<le> dst_h * ?S" by (rule rows_le)
    also have "\<dots> = dst_w * 4 * dst_h" by (simp add: mult.commute)
    also have "\<dots> \<le> length dst" by (rule Suc.prems(1))
    finally show ?thesis .
  qed
  from rgb24_pixels_frame [OF assms(1) assms(3) S32 in_src in_dst, of 0]
  obtain d1 where d1:
    "rgb24_pixels src (y * (src_w * 3)) src_w center dst_w 4 (wrap32 (src_w * 3)) ?dst_row 0 dst
       = Some d1" "length d1 = length dst"
    "\<forall>j. d1 ! j \<noteq> dst ! j \<longrightarrow> ?dst_row + 0 * 4 \<le> j \<and> j < ?dst_row + src_w * 4"
    by auto
  have n: "n = src_h - (y + 1)" using Suc.hyps(2) by simp
  have p1: "dst_w * 4 * dst_h \<le> length d1" using Suc.prems(1) d1(2) by simp
  have p2: "y + 1 \<le> src_h" using lt by simp
  from Suc.hyps(1) [OF n p1 p2] obtain d2 where d2:
    "rgb24_rows src src_w src_h center ?S 4 dst_w dst_h (y + 1) d1 = Some d2"
    "length d2 = length d1"
    "\<forall>j. d2 ! j \<noteq> d1 ! j \<longrightarrow>
         (\<exists>y' x k. y + 1 \<le> y' \<and> y' < src_h \<and> x < src_w \<and> k < 4 \<and>
            j = (?oy + y') * ?S + (?ox + x) * 4 + k)"
    by auto
  have step: "rgb24_rows src src_w src_h center ?S 4 dst_w dst_h y dst = Some d2"
    using lt assms(2) row u d1(1) d2(1)
    by (subst rgb24_rows.simps) (simp add: wrap32_id)
  have "\<forall>j. d2 ! j \<noteq> dst ! j \<longrightarrow>
         (\<exists>y' x k. y \<le> y' \<and> y' < src_h \<and> x < src_w \<and> k < 4 \<and>
            j = (?oy + y') * ?S + (?ox + x) * 4 + k)"
  proof (intro allI impI)
    fix j assume ne: "d2 ! j \<noteq> dst ! j"
    show "\<exists>y' x k. y \<le> y' \<and> y' < src_h \<and> x < src_w \<and> k < 4 \<and>
            j = (?oy + y') * ?S + (?ox + x) * 4 + k"
    proof (cases "d2 ! j = d1 ! j")
      case True
      with ne have "d1 ! j \<noteq> dst ! j" by simp
      with d1(3) have r: "?dst_row \<le> j" "j < ?dst_row + src_w * 4" by auto
      define d where "d = j - ?dst_row"
      have dj: "j = ?dst_row + d" "d < src_w * 4" using r by (simp_all add: d_def)
      have "d div 4 < src_w" using dj(2) by simp
      moreover have "d mod 4 < 4" by simp
      moreover have "j = (?oy + y) * ?S + (?ox + d div 4) * 4 + d mod 4"
        using dj(1) by (simp add: algebra_simps)
      ultimately show ?thesis using lt by blast
    next
      case False
      with d2(3) obtain y' x k where
        "y + 1 \<le> y'" "y' < src_h" "x < src_w" "k < 4"
        "j = (?oy + y') * ?S + (?ox + x) * 4 + k" by blast
      then show ?thesis by (intro exI [of _ y'] exI [of _ x] exI [of _ k]) simp
    qed
  qed
  with step d2(2) d1(2) show ?case by simp
qed

text \<open>
  C8. When the capture geometry fits the display mode, \<^verbatim>\<open>_drm_calculate_center\<close>
  yields \<open>offset_x = (mode_w - src_w) / 2\<close> and \<open>offset_y = (mode_h - src_h) / 2\<close>
  (integer division) and asks for centering; and the RGB24 converter, called as the
  display path calls it (32 bits per pixel, stride \<open>mode_w * 4\<close>), returns without
  leaving either buffer and changes no byte of the framebuffer outside the pixels
  \<open>(offset_x + x, offset_y + y)\<close> with \<open>x < src_w\<close> and \<open>y < src_h\<close>. The framebuffer is
  smaller than 4 GiB, so that the 32-bit offsets do not wrap.
\<close>

theorem centered_rgb24_stays_in_rectangle:
  assumes "src_w \<le> mode_w" "src_h \<le> mode_h"
    and "mode_w < 2 ^ 32" "mode_h < 2 ^ 32" "mode_w * 4 * mode_h < 2 ^ 32"
    and "src_w * 3 * src_h \<le> length src" "mode_w * 4 * mode_h \<le> length dst"
  shows "offset_x (drm_calculate_center src_w src_h mode_w mode_h) = (mode_w - src_w) div 2
       \<and> offset_y (drm_calculate_center src_w src_h mode_w mode_h) = (mode_h - src_h) div 2
       \<and> needs_center (drm_calculate_center src_w src_h mode_w mode_h)
       \<and> (\<exists>dst'. drm_convert_rgb24 src src_w src_h dst
                    (drm_calculate_center src_w src_h mode_w mode_h)
                    (mode_w * 4) 32 mode_w mode_h = Some dst'
             \<and> length dst' = length dst
             \<and> (\<forall>j. dst' ! j \<noteq> dst ! j \<longrightarrow>
                    (\<exists>y x k. y < src_h \<and> x < src_w \<and> k < 4 \<and>
                       j = ((mode_h - src_h) div 2 + y) * (mode_w * 4)
                           + ((mode_w - src_w) div 2 + x) * 4 + k)))"
proof -
  let ?c = "drm_calculate_center src_w src_h mode_w mode_h"
  have c: "src_width ?c = src_w" "src_height ?c = src_h"
    "offset_x ?c = (mode_w - src_w) div 2" "offset_y ?c = (mode_h - src_h) div 2"
    "needs_center ?c"
    using assms(1,2) by (simp_all add: drm_calculate_center_def)
  have fit: "offset_x ?c + src_w \<le> mode_w" "offset_y ?c + src_h \<le> mode_h"
    using assms(1,2) unfolding c by simp_all
  from rgb24_rows_frame [OF c(1,2) fit assms(3,4,5,6,7), of 0]
  obtain dst' where d:
    "rgb24_rows src src_w src_h ?c (mode_w * 4) 4 mode_w mode_h 0 dst = Some dst'"
    "length dst' = length dst"
    "\<forall>j. dst' ! j \<noteq> dst ! j \<longrightarrow>
        (\<exists>y' x k. 0 \<le> y' \<and> y' < src_h \<and> x < src_w \<and> k < 4 \<and>
           j = (offset_y ?c + y') * (mode_w * 4) + (offset_x ?c + x) * 4 + k)"
    by auto
  have "drm_convert_rgb24 src src_w src_h dst ?c (mode_w * 4) 32 mode_w mode_h = Some dst'"
    using d(1) by (simp add: drm_convert_rgb24_def)
  moreover have "\<forall>j. dst' ! j \<noteq> dst ! j \<longrightarrow>
                    (\<exists>y x k. y < src_h \<and> x < src_w \<and> k < 4 \<and>
                       j = ((mode_h - src_h) div 2 + y) * (mode_w * 4)
                           + ((mode_w - src_w) div 2 + x) * 4 + k)"
    using d(3) unfolding c by simp
  ultimately show ?thesis using c(3-5) d(2) by blast
qed

text \<open>A 1x1 source in a 3x1 mode: the pixel lands in the middle, as B, G, R, 0xFF.\<close>

lemma tiny_center: "drm_convert_rgb24 [1,2,3] 1 1 [0,0,0,0, 0,0,0,0, 0,0,0,0] (drm_calculate_center 1 1 3 1) 12 32 3 1
   = Some [0,0,0,0, 3,2,1,0xFF, 0,0,0,0]"
  by (simp add: drm_convert_rgb24_def drm_calculate_center_def rgb24_rows.simps
        rgb24_pixels.simps read_byte_def wrap32_def)

theorem centered_rgb24_stays_in_rectangle_witness:
  "offset_x (drm_calculate_center 640 480 1920 1080) = 640
   \<and> offset_y (drm_calculate_center 640 480 1920 1080) = 300
   \<and> (\<exists>dst'. drm_convert_rgb24 (replicate 921600 7) 640 480 (replicate 8294400 0)
                (drm_calculate_center 640 480 1920 1080) 7680 32 1920 1080 = Some dst'
          \<and> length dst' = 8294400)
   \<and> (\<exists>dst'. drm_convert_rgb24 [1, 2, 3] 1 1 [0, 0, 0, 0, 0, 0, 0, 0, 0, 0, 0, 0]
                (drm_calculate_center 1 1 3 1) 12 32 3 1 = Some dst'
          \<and> dst' ! 0 = 0 \<and> dst' ! 3 = 0 \<and> dst' ! 8 = 0 \<and> dst' ! 11 = 0)"
proof -
  have big: "(640::nat) \<le> 1920" "(480::nat) \<le> 1080" "(1920::nat) < 2 ^ 32" "(1080::nat) < 2 ^ 32"
    "(1920::nat) * 4 * 1080 < 2 ^ 32" "640 * 3 * 480 \<le> length (replicate 921600 (7::u8))"
    "1920 * 4 * 1080 \<le> length (replicate 8294400 (0::u8))"
    by simp_all
  have small: "(1::nat) \<le> 3" "(1::nat) \<le> 1" "(3::nat) < 2 ^ 32" "(1::nat) < 2 ^ 32"
    "(3::nat) * 4 * 1 < 2 ^ 32" "1 * 3 * 1 \<le> length [1, 2, 3 :: u8]"
    "3 * 4 * 1 \<le> length [0, 0, 0, 0, 0, 0, 0, 0, 0, 0, 0, 0 :: u8]"
    by simp_all
  from centered_rgb24_stays_in_rectangle [OF big]
  have a: "offset_x (drm_calculate_center 640 480 1920 1080) = 640
     \<and> offset_y (drm_calculate_center 640 480 1920 1080) = 300
     \<and> (\<exists>dst'. drm_convert_rgb24 (replicate 921600 7) 640 480 (replicate 8294400 0)
                (drm_calculate_center 640 480 1920 1080) 7680 32 1920 1080 = Some dst'
          \<and> length dst' = 8294400)"
    by auto
  from centered_rgb24_stays_in_rectangle [OF small]
  obtain dst' where d:
    "drm_convert_rgb24 [1, 2, 3] 1 1 [0, 0, 0, 0, 0, 0, 0, 0, 0, 0, 0, 0]
       (drm_calculate_center 1 1 3 1) 12 32 3 1 = Some dst'"
    "\<forall>j. dst' ! j \<noteq> [0, 0, 0, 0, 0, 0, 0, 0, 0, 0, 0, 0] ! j \<longrightarrow>
        (\<exists>y x k. y < (1::nat) \<and> x < (1::nat) \<and> k < (4::nat) \<and>
           j = ((1 - 1) div 2 + y) * (3 * 4) + ((3 - 1) div 2 + x) * 4 + k)"
    by auto
  have "dst' ! 0 = 0 \<and> dst' ! 3 = 0 \<and> dst' ! 8 = 0 \<and> dst' ! 11 = 0"
    using d(2) [rule_format, of 0] d(2) [rule_format, of 3]
      d(2) [rule_format, of 8] d(2) [rule_format, of 11]
    by auto
  with a d(1) show ?thesis by blast
qed

section \<open>The software JPEG decoder\<close>

lemma append_keeps:
  "format (us_frame_append_data f bs n) = format f
   \<and> stride (us_frame_append_data f bs n) = stride f
   \<and> width (us_frame_append_data f bs n) = width f
   \<and> height (us_frame_append_data f bs n) = height f
   \<and> used (us_frame_append_data f bs n) = used f + n"
  by (simp add: us_frame_append_data_def us_frame_realloc_data_def Let_def)

lemma read_scanlines_keeps:
  "format (read_scanlines jpeg ks f) = format f
   \<and> stride (read_scanlines jpeg ks f) = stride f
   \<and> width (read_scanlines jpeg ks f) = width f
   \<and> height (read_scanlines jpeg ks f) = height f
   \<and> used (read_scanlines jpeg ks f) = used f + length ks * unat (stride f)"
  by (induction ks arbitrary: f) (simp_all add: append_keeps)

text \<open>
  C6. For a JPEG source frame that libjpeg decodes without raising an error,
  \<^verbatim>\<open>us_unjpeg\<close> with \<open>decode = true\<close> returns 0 and an output frame of the stream's
  dimensions: when the stream has three components sampled 2x2, 1x1, 1x1 the format is
  I420 (YUV420) with \<open>stride = width\<close>; otherwise the format is RGB24 with
  \<open>stride = width * 3\<close>. \<open>used\<close> is the size of the three planes, or \<open>height * stride\<close>.
\<close>

theorem unjpeg_output_format:
  assumes "us_is_jpeg (format src)" "jd_error jpeg = None"
  shows "\<exists>out. us_unjpeg jpeg src dest True = Some (0, out)
          \<and> width out = output_width jpeg \<and> height out = output_height jpeg
          \<and> (if num_components jpeg = 3 \<and> is_420 jpeg
              then format out = V4L2_PIX_FMT_YUV420 \<and> stride out = width out
                   \<and> used out = unat (width out) * unat (height out)
                                  + 2 * ((unat (width out) div 2) * (unat (height out) div 2))
              else format out = V4L2_PIX_FMT_RGB24 \<and> stride out = width out * 3
                   \<and> used out = unat (height out) * unat (stride out))"
  using assms
  by (simp add: us_unjpeg_def unjpeg_yuv420_def unjpeg_rgb24_def Let_def RGB_PIXELSIZE_def
        US_FRAME_COPY_META_def us_frame_realloc_data_def read_scanlines_keeps)

theorem unjpeg_output_format_witness:
  "(\<exists>out. us_unjpeg demo_stream_420 demo_jpeg demo_out True = Some (0, out)
       \<and> format out = V4L2_PIX_FMT_YUV420 \<and> stride out = 1920 \<and> used out = 3110400)
   \<and> (\<exists>out. us_unjpeg demo_stream_422 demo_jpeg demo_out True = Some (0, out)
       \<and> format out = V4L2_PIX_FMT_RGB24 \<and> stride out = 1920 \<and> used out = 921600)"
proof -
  have j: "us_is_jpeg (format demo_jpeg)"
    by (simp add: us_is_jpeg_def demo_jpeg_def)
  have e: "jd_error demo_stream_420 = None" "jd_error demo_stream_422 = None"
    by (simp_all add: demo_stream_420_def demo_stream_422_def)
  have s: "num_components demo_stream_420 = 3 \<and> is_420 demo_stream_420"
    "\<not> (num_components demo_stream_422 = 3 \<and> is_420 demo_stream_422)"
    by (simp_all add: is_420_def demo_stream_420_def demo_stream_422_def)
  have g: "output_width demo_stream_420 = 1920" "output_height demo_stream_420 = 1080"
    "output_width demo_stream_422 = 640" "output_height demo_stream_422 = 480"
    by (simp_all add: demo_stream_420_def demo_stream_422_def)
  have a: "\<exists>out. us_unjpeg demo_stream_420 demo_jpeg demo_out True = Some (0, out)
       \<and> format out = V4L2_PIX_FMT_YUV420 \<and> stride out = 1920 \<and> used out = 3110400"
    using unjpeg_output_format [OF j e(1), of demo_out] s(1) g by auto
  have b: "\<exists>out. us_unjpeg demo_stream_422 demo_jpeg demo_out True = Some (0, out)
       \<and> format out = V4L2_PIX_FMT_RGB24 \<and> stride out = 1920 \<and> used out = 921600"
    using unjpeg_output_format [OF j e(2), of demo_out] s(2) g by auto
  from a b show ?thesis by blast
qed

section \<open>The transcoder\<close>













end
